theory Spec2Isabelle
  imports Complex_Main
begin

section \<open>The float64 values and their comparisons\<close>

text \<open>
  A Go \<open>float64\<close> is a NaN, an infinity, the negative zero or a finite number. A finite
  value is modelled by the real number it denotes: \<open>Fin r\<close>, where \<open>Fin 0\<close> is the positive
  zero and \<open>NegZero\<close> the negative one. Every float64 is such a value; the model does not
  single out which reals are representable, so a statement about all \<open>Fin r\<close> covers every
  finite float64. NaN payloads are not told apart.

  Comparisons of float64 values are exact in IEEE 754, so \<open>fle\<close> and \<open>fge\<close> below are the
  operators \<open><=\<close> and \<open>>=\<close> of the source: every comparison with a NaN is false, and the two
  zeros compare equal.
\<close>

datatype float64 = NaN | NegInf | NegZero | Fin real | PosInf

text \<open>The number a finite value denotes (\<open>0\<close> for the values that denote none).\<close>

fun num :: "float64 \<Rightarrow> real" where
  "num (Fin r) = r"
| "num x = 0"

fun finite64 :: "float64 \<Rightarrow> bool" where
  "finite64 (Fin r) = True"
| "finite64 NegZero = True"
| "finite64 x = False"

fun fle :: "float64 \<Rightarrow> float64 \<Rightarrow> bool" where
  "fle NaN y = False"
| "fle x NaN = False"
| "fle NegInf y = True"
| "fle x PosInf = True"
| "fle PosInf y = False"
| "fle x NegInf = False"
| "fle x y = (num x \<le> num y)"

definition fge :: "float64 \<Rightarrow> float64 \<Rightarrow> bool" where
  "fge x y = fle y x"

text \<open>Negation flips the sign bit: it is exact, and it exchanges the two zeros.\<close>

fun fneg :: "float64 \<Rightarrow> float64" where
  "fneg NaN = NaN"
| "fneg NegInf = PosInf"
| "fneg NegZero = Fin 0"
| "fneg (Fin a) = (if a = 0 then NegZero else Fin (- a))"
| "fneg PosInf = NegInf"

definition is_zero :: "float64 \<Rightarrow> bool" where
  "is_zero x = (x = Fin 0 \<or> x = NegZero)"

section \<open>The arithmetic the source calls\<close>

text \<open>
  The rounded float64 operations \<open>+ - * /\<close> and the functions of Go's \<open>math\<close> package
  (\<open>math.Pi\<close> converted to float64, \<open>math.Sin\<close>, \<open>math.Cos\<close>, \<open>math.Pow\<close>, \<open>math.Sqrt\<close>,
  \<open>math.Atan2\<close>) are not code of the package. They are a parameter of the model: every
  function below takes the arithmetic \<open>M\<close> it runs on, and a theorem about the source holds
  for every arithmetic, or for every arithmetic with the properties it names. Every
  operator and call of the source is one application of an operation; the fused
  multiply-add a Go compiler may use for \<open>x*y + z\<close> is not modelled.
\<close>

record arith =
  fadd :: "float64 \<Rightarrow> float64 \<Rightarrow> float64"
  fsub :: "float64 \<Rightarrow> float64 \<Rightarrow> float64"
  fmul :: "float64 \<Rightarrow> float64 \<Rightarrow> float64"
  fdiv :: "float64 \<Rightarrow> float64 \<Rightarrow> float64"
  math_Pi :: float64
  math_Sin :: "float64 \<Rightarrow> float64"
  math_Cos :: "float64 \<Rightarrow> float64"
  math_Pow :: "float64 \<Rightarrow> float64 \<Rightarrow> float64"
  math_Sqrt :: "float64 \<Rightarrow> float64"
  math_Atan2 :: "float64 \<Rightarrow> float64 \<Rightarrow> float64"

section \<open>The package haversine\<close>

text \<open>A Go \<open>error\<close> made by \<open>errors.New\<close> is its message; \<open>nil\<close> is \<open>None\<close>.\<close>

type_synonym error = string

text \<open>\<open>const earthRadius = 6371\<close>\<close>

definition earthRadius :: real where
  "earthRadius = 6371"

text \<open>\<open>func degToRad(deg float64) (rad float64) { return deg * math.Pi / 180 }\<close>\<close>

definition degToRad :: "arith \<Rightarrow> float64 \<Rightarrow> float64" where
  "degToRad M deg = fdiv M (fmul M deg (math_Pi M)) (Fin 180)"

text \<open>\<open>func isValidLatitude(lat float64) bool { return lat >= -90 && lat <= 90 }\<close>\<close>

definition isValidLatitude :: "float64 \<Rightarrow> bool" where
  "isValidLatitude lat = (fge lat (Fin (- 90)) \<and> fle lat (Fin 90))"

text \<open>\<open>func isValidLongitude(lon float64) bool { return lon >= -180 && lon <= 180 }\<close>\<close>

definition isValidLongitude :: "float64 \<Rightarrow> bool" where
  "isValidLongitude lon = (fge lon (Fin (- 180)) \<and> fle lon (Fin 180))"

text \<open>
  \<open>func Haversine(lat1, lon1, lat2, lon2 float64) (distance float64, err error)\<close>:
  the guard returns \<open>-1\<close> and a new error; otherwise \<open>dLat\<close>, \<open>dLon\<close>, \<open>a\<close> and \<open>c\<close> are
  computed as the source writes them and \<open>earthRadius * c\<close> is returned with a nil error.
\<close>

definition Haversine ::
  "arith \<Rightarrow> float64 \<Rightarrow> float64 \<Rightarrow> float64 \<Rightarrow> float64 \<Rightarrow> float64 \<times> error option" where
  "Haversine M lat1 lon1 lat2 lon2 =
     (if \<not> isValidLatitude lat1 \<or> \<not> isValidLatitude lat2 \<or>
         \<not> isValidLongitude lon1 \<or> \<not> isValidLongitude lon2
      then (Fin (- 1), Some ''haversine: invalid latitude or longitude values'')
      else
        let dLat = degToRad M (fsub M lat2 lat1);
            dLon = degToRad M (fsub M lon2 lon1);
            a = fadd M (math_Pow M (math_Sin M (fdiv M dLat (Fin 2))) (Fin 2))
                       (fmul M (fmul M (math_Cos M (degToRad M lat1))
                                       (math_Cos M (degToRad M lat2)))
                               (math_Pow M (math_Sin M (fdiv M dLon (Fin 2))) (Fin 2)));
            c = fmul M (Fin 2) (math_Atan2 M (math_Sqrt M a) (math_Sqrt M (fsub M (Fin 1) a)))
        in (fmul M (Fin earthRadius) c, None))"

section \<open>The specification's vocabulary\<close>

text \<open>
  \<open>x \<in> [lo, hi]\<close> for a float64 \<open>x\<close>: a finite number between the bounds, both included.
  A NaN and the infinities belong to no interval of finite bounds.
\<close>

definition in_range :: "real \<Rightarrow> real \<Rightarrow> float64 \<Rightarrow> bool" where
  "in_range lo hi x = (finite64 x \<and> lo \<le> num x \<and> num x \<le> hi)"

text \<open>The specification's validation failure: some coordinate lies outside its interval.\<close>

definition out_of_range :: "float64 \<Rightarrow> float64 \<Rightarrow> float64 \<Rightarrow> float64 \<Rightarrow> bool" where
  "out_of_range lat1 lon1 lat2 lon2 =
     (\<not> in_range (- 90) 90 lat1 \<or> \<not> in_range (- 90) 90 lat2 \<or>
      \<not> in_range (- 180) 180 lon1 \<or> \<not> in_range (- 180) 180 lon2)"

text \<open>The error value of the guard, the specification's \<open>InvalidCoordinate\<close>.\<close>

definition InvalidCoordinate :: error where
  "InvalidCoordinate = ''haversine: invalid latitude or longitude values''"

text \<open>
  The specification's algorithm, step by step: \<open>radians = degrees * \<pi> / 180\<close>;
  \<open>dLat = radians(lat2-lat1)\<close>, \<open>dLon = radians(lon2-lon1)\<close>;
  \<open>a = sin\<^sup>2(dLat/2) + cos(radians(lat1)) * cos(radians(lat2)) * sin\<^sup>2(dLon/2)\<close>;
  \<open>c = 2 * atan2(sqrt(a), sqrt(1-a))\<close>; the result is \<open>earthRadiusKm * c\<close> with
  \<open>earthRadiusKm = 6371\<close>. Its operations are the double-precision ones, so it runs on the
  same arithmetic as the source.
\<close>

definition radians :: "arith \<Rightarrow> float64 \<Rightarrow> float64" where
  "radians M degrees = fdiv M (fmul M degrees (math_Pi M)) (Fin 180)"

definition sin_squared :: "arith \<Rightarrow> float64 \<Rightarrow> float64" where
  "sin_squared M x = math_Pow M (math_Sin M x) (Fin 2)"

definition earthRadiusKm :: float64 where
  "earthRadiusKm = Fin 6371"

definition spec_a :: "arith \<Rightarrow> float64 \<Rightarrow> float64 \<Rightarrow> float64 \<Rightarrow> float64 \<Rightarrow> float64" where
  "spec_a M lat1 lon1 lat2 lon2 =
     fadd M (sin_squared M (fdiv M (radians M (fsub M lat2 lat1)) (Fin 2)))
            (fmul M (fmul M (math_Cos M (radians M lat1)) (math_Cos M (radians M lat2)))
                    (sin_squared M (fdiv M (radians M (fsub M lon2 lon1)) (Fin 2))))"

definition spec_c :: "arith \<Rightarrow> float64 \<Rightarrow> float64" where
  "spec_c M a = fmul M (Fin 2) (math_Atan2 M (math_Sqrt M a) (math_Sqrt M (fsub M (Fin 1) a)))"

definition spec_distance :: "arith \<Rightarrow> float64 \<Rightarrow> float64 \<Rightarrow> float64 \<Rightarrow> float64 \<Rightarrow> float64" where
  "spec_distance M lat1 lon1 lat2 lon2 = fmul M earthRadiusKm (spec_c M (spec_a M lat1 lon1 lat2 lon2))"

section \<open>Exact arithmetic\<close>

text \<open>
  One arithmetic the model can run on: every operation returns the exact real result, with
  the signs of zero that IEEE 754 and the \<open>math\<close> package give. It never rounds and never
  overflows; an operation on a NaN or an infinity returns NaN, and so does \<open>math.Pow\<close>
  outside a positive base or the exponent 2 (the source raises to the power 2 only). The
  theorems below that need properties of the arithmetic are applied to it.
\<close>

fun sgnbit :: "float64 \<Rightarrow> bool" where
  "sgnbit NegInf = True"
| "sgnbit NegZero = True"
| "sgnbit (Fin r) = (r < 0)"
| "sgnbit x = False"

text \<open>The finite value \<open>r\<close>; a zero takes the sign \<open>s\<close>.\<close>

definition signed :: "bool \<Rightarrow> real \<Rightarrow> float64" where
  "signed s r = (if r = 0 \<and> s then NegZero else Fin r)"

definition x_add :: "float64 \<Rightarrow> float64 \<Rightarrow> float64" where
  "x_add x y =
     (if finite64 x \<and> finite64 y then signed (sgnbit x \<and> sgnbit y) (num x + num y) else NaN)"

definition x_sub :: "float64 \<Rightarrow> float64 \<Rightarrow> float64" where
  "x_sub x y =
     (if finite64 x \<and> finite64 y then signed (sgnbit x \<and> \<not> sgnbit y) (num x - num y) else NaN)"

definition x_mul :: "float64 \<Rightarrow> float64 \<Rightarrow> float64" where
  "x_mul x y =
     (if finite64 x \<and> finite64 y then signed (sgnbit x \<noteq> sgnbit y) (num x * num y) else NaN)"

definition x_div :: "float64 \<Rightarrow> float64 \<Rightarrow> float64" where
  "x_div x y =
     (if finite64 x \<and> finite64 y
      then if num y = 0
           then if num x = 0 then NaN else if sgnbit x \<noteq> sgnbit y then NegInf else PosInf
           else signed (sgnbit x \<noteq> sgnbit y) (num x / num y)
      else NaN)"

definition x_sin :: "float64 \<Rightarrow> float64" where
  "x_sin x = (if finite64 x then signed (sgnbit x) (sin (num x)) else NaN)"

definition x_cos :: "float64 \<Rightarrow> float64" where
  "x_cos x = (if finite64 x then Fin (cos (num x)) else NaN)"

definition x_pow :: "float64 \<Rightarrow> float64 \<Rightarrow> float64" where
  "x_pow x y =
     (if finite64 x \<and> finite64 y
      then if num y = 2 then Fin ((num x)\<^sup>2)
           else if 0 < num x then Fin (num x powr num y) else NaN
      else NaN)"

definition x_sqrt :: "float64 \<Rightarrow> float64" where
  "x_sqrt x =
     (if x = NegZero then NegZero
      else if finite64 x \<and> 0 \<le> num x then Fin (sqrt (num x)) else NaN)"

text \<open>
  \<open>math.Atan2(y, x)\<close> on finite arguments, with the cases of Go's implementation: a zero
  \<open>y\<close> gives a zero of its sign for \<open>x\<close> of positive sign and \<open>\<plusminus>\<pi>\<close> otherwise, a zero \<open>x\<close>
  gives \<open>\<plusminus>\<pi>/2\<close>, and the arc tangent of \<open>y/x\<close> is moved to the quadrant of the point.
\<close>

definition x_atan2 :: "float64 \<Rightarrow> float64 \<Rightarrow> float64" where
  "x_atan2 y x =
     (if finite64 y \<and> finite64 x
      then if num y = 0
           then if \<not> sgnbit x then y else Fin (if sgnbit y then - pi else pi)
           else if num x = 0 then Fin (if num y < 0 then - (pi / 2) else pi / 2)
           else let q = arctan (num y / num x)
                in Fin (if num x < 0 then (if q \<le> 0 then q + pi else q - pi) else q)
      else NaN)"

definition exact :: arith where
  "exact = \<lparr>fadd = x_add, fsub = x_sub, fmul = x_mul, fdiv = x_div, math_Pi = Fin pi,
            math_Sin = x_sin, math_Cos = x_cos, math_Pow = x_pow, math_Sqrt = x_sqrt,
            math_Atan2 = x_atan2\<rparr>"

section \<open>Properties of the arithmetic\<close>

text \<open>
  Two groups of facts about float64 arithmetic that do not depend on how a result is
  rounded. They hold for IEEE 754 binary64 in round-to-nearest, Go's only rounding mode,
  and for the \<open>math\<close> package.

  Sign symmetry: rounding treats a number and its negation alike, so \<open>x - y\<close> is the negation
  of \<open>y - x\<close> unless both are the positive zero (as for \<open>x = y\<close>); negating a factor or a
  dividend negates the result; multiplication commutes; \<open>math.Sin\<close> is odd; and \<open>math.Pow\<close>
  with the exponent 2 gives the same result for \<open>x\<close> and \<open>-x\<close>.
\<close>

definition sign_symmetric :: "arith \<Rightarrow> bool" where
  "sign_symmetric M =
     ((\<forall>x y. fsub M x y = fneg (fsub M y x) \<or> fsub M x y = Fin 0 \<and> fsub M y x = Fin 0) \<and>
      (\<forall>x y. fmul M (fneg x) y = fneg (fmul M x y)) \<and>
      (\<forall>x y. fdiv M (fneg x) y = fneg (fdiv M x y)) \<and>
      (\<forall>x y. fmul M x y = fmul M y x) \<and>
      (\<forall>x. math_Sin M (fneg x) = fneg (math_Sin M x)) \<and>
      (\<forall>x. math_Pow M (fneg x) (Fin 2) = math_Pow M x (Fin 2)))"

text \<open>
  Exact cases: operations whose exact result is representable return it. The difference of
  a finite value and itself is \<open>+0\<close>; \<open>+0\<close> times \<open>math.Pi\<close> or a positive number, and \<open>+0\<close>
  divided by a number from 1 on, is \<open>+0\<close>; a finite value times \<open>+0\<close> is a zero; \<open>+0\<close> plus a
  zero is \<open>+0\<close>; \<open>1 - 0 = 1\<close>; \<open>math.Sin\<close>, \<open>math.Sqrt\<close> and the square of \<open>math.Pow\<close> map
  \<open>+0\<close> to \<open>+0\<close>, \<open>math.Sqrt(1) = 1\<close> and \<open>math.Atan2(+0, 1) = +0\<close>. Nothing overflows at
  this size: a value of at most 180 in magnitude times \<open>math.Pi\<close> is finite, dividing a
  finite value by a number from 1 on gives a finite value, \<open>math.Cos\<close> of a finite value
  lies in \<open>[-1, 1]\<close> and so does the product of two such values.
\<close>

definition exact_at_zero :: "arith \<Rightarrow> bool" where
  "exact_at_zero M =
     ((\<forall>x. finite64 x \<longrightarrow> fsub M x x = Fin 0) \<and>
      fmul M (Fin 0) (math_Pi M) = Fin 0 \<and>
      (\<forall>r. 0 < r \<longrightarrow> fmul M (Fin r) (Fin 0) = Fin 0) \<and>
      (\<forall>r. 1 \<le> r \<longrightarrow> fdiv M (Fin 0) (Fin r) = Fin 0) \<and>
      (\<forall>x. finite64 x \<longrightarrow> is_zero (fmul M x (Fin 0))) \<and>
      (\<forall>z. is_zero z \<longrightarrow> fadd M (Fin 0) z = Fin 0) \<and>
      fsub M (Fin 1) (Fin 0) = Fin 1 \<and>
      math_Sin M (Fin 0) = Fin 0 \<and>
      math_Pow M (Fin 0) (Fin 2) = Fin 0 \<and>
      math_Sqrt M (Fin 0) = Fin 0 \<and>
      math_Sqrt M (Fin 1) = Fin 1 \<and>
      math_Atan2 M (Fin 0) (Fin 1) = Fin 0 \<and>
      (\<forall>x. in_range (- 180) 180 x \<longrightarrow> finite64 (fmul M x (math_Pi M))) \<and>
      (\<forall>x r. finite64 x \<and> 1 \<le> r \<longrightarrow> finite64 (fdiv M x (Fin r))) \<and>
      (\<forall>x. finite64 x \<longrightarrow> in_range (- 1) 1 (math_Cos M x)) \<and>
      (\<forall>x y. in_range (- 1) 1 x \<and> in_range (- 1) 1 y \<longrightarrow> in_range (- 1) 1 (fmul M x y)))"

text \<open>
  Accuracy: every operation returns a finite value within \<open>eps = 10\<^sup>-\<^sup>6\<close> of the exact
  result, for operands of magnitude at most \<open>10\<^sup>4\<close> (divisors from 1 on, non-negative
  arguments of \<open>math.Sqrt\<close>, a positive second argument of \<open>math.Atan2\<close>). Float64
  arithmetic and the \<open>math\<close> package are far more accurate than that on this range: a
  float64 operation is off by at most \<open>2\<^sup>-\<^sup>5\<^sup>3\<close> of its result.
\<close>

definition eps :: real where
  "eps = 1 / 10 ^ 6"

definition near :: "float64 \<Rightarrow> real \<Rightarrow> bool" where
  "near v r = (finite64 v \<and> \<bar>num v - r\<bar> \<le> eps)"

definition small :: "float64 \<Rightarrow> bool" where
  "small x = in_range (- (10 ^ 4)) (10 ^ 4) x"

definition accurate :: "arith \<Rightarrow> bool" where
  "accurate M =
     ((\<forall>x y. small x \<and> small y \<longrightarrow>
         near (fadd M x y) (num x + num y) \<and> near (fsub M x y) (num x - num y) \<and>
         near (fmul M x y) (num x * num y)) \<and>
      (\<forall>x y. small x \<and> small y \<and> 1 \<le> num y \<longrightarrow> near (fdiv M x y) (num x / num y)) \<and>
      near (math_Pi M) pi \<and>
      (\<forall>x. small x \<longrightarrow>
         near (math_Sin M x) (sin (num x)) \<and> near (math_Cos M x) (cos (num x)) \<and>
         near (math_Pow M x (Fin 2)) ((num x)\<^sup>2)) \<and>
      (\<forall>x. small x \<and> 0 \<le> num x \<longrightarrow> near (math_Sqrt M x) (sqrt (num x))) \<and>
      (\<forall>y x. small y \<and> small x \<and> 0 < num x \<longrightarrow>
         near (math_Atan2 M y x) (arctan (num y / num x))))"

text \<open>
  A second arithmetic: the exact one, except that a sum is returned \<open>eps\<close> too high. It is
  accurate in the sense above.
\<close>

definition add_above :: "float64 \<Rightarrow> float64 \<Rightarrow> float64" where
  "add_above x y = (if finite64 x \<and> finite64 y then Fin (num x + num y + eps) else NaN)"

definition skewed :: arith where
  "skewed = exact\<lparr>fadd := add_above\<rparr>"

text \<open>
  The NaN rules of IEEE 754 and of the \<open>math\<close> package: \<open>1 - x\<close> is a negative number for
  every finite \<open>x\<close> from \<open>1 + 2\<^sup>-\<^sup>5\<^sup>2\<close> on, the least float64 above 1; \<open>math.Sqrt\<close> of a
  negative number is NaN; \<open>math.Atan2\<close> of a NaN is NaN; and a product with a NaN is NaN.
\<close>

definition nan_rules :: "arith \<Rightarrow> bool" where
  "nan_rules M =
     ((\<forall>x. finite64 x \<and> 1 + 1 / 2 ^ 52 \<le> num x \<longrightarrow>
         finite64 (fsub M (Fin 1) x) \<and> num (fsub M (Fin 1) x) < 0) \<and>
      (\<forall>x. finite64 x \<and> num x < 0 \<longrightarrow> math_Sqrt M x = NaN) \<and>
      (\<forall>y. math_Atan2 M y NaN = NaN) \<and>
      (\<forall>x. fmul M x NaN = NaN))"

section \<open>Validation\<close>

lemma isValidLatitude_in_range: "isValidLatitude lat = in_range (- 90) 90 lat"
  by (cases lat) (simp_all add: isValidLatitude_def in_range_def fge_def)

lemma isValidLongitude_in_range: "isValidLongitude lon = in_range (- 180) 180 lon"
  by (cases lon) (simp_all add: isValidLongitude_def in_range_def fge_def)

lemma guard_out_of_range:
  "(\<not> isValidLatitude lat1 \<or> \<not> isValidLatitude lat2 \<or>
    \<not> isValidLongitude lon1 \<or> \<not> isValidLongitude lon2) = out_of_range lat1 lon1 lat2 lon2"
  by (simp add: out_of_range_def isValidLatitude_in_range isValidLongitude_in_range)

lemma guard_rejects:
  "out_of_range lat1 lon1 lat2 lon2 \<Longrightarrow>
   Haversine M lat1 lon1 lat2 lon2 = (Fin (- 1), Some InvalidCoordinate)"
  unfolding Haversine_def guard_out_of_range InvalidCoordinate_def by simp

lemma guard_accepts:
  "\<not> out_of_range lat1 lon1 lat2 lon2 \<Longrightarrow> snd (Haversine M lat1 lon1 lat2 lon2) = None"
  unfolding Haversine_def guard_out_of_range by (simp add: Let_def)

text \<open>
  C2. For every input \<open>(lat1, lon1, lat2, lon2)\<close>, \<open>Haversine\<close> returns the sentinel distance
  \<open>-1\<close> together with a non-nil error if and only if at least one of \<open>lat1 \<notin> [-90, 90]\<close>,
  \<open>lat2 \<notin> [-90, 90]\<close>, \<open>lon1 \<notin> [-180, 180]\<close>, \<open>lon2 \<notin> [-180, 180]\<close> holds; the error is
  then the \<open>InvalidCoordinate\<close> one, and on every other input the returned error is nil.
  This holds on every arithmetic \<open>M\<close>.
\<close>

theorem Haversine_invalid_iff:
  "((fst (Haversine M lat1 lon1 lat2 lon2) = Fin (- 1) \<and>
     snd (Haversine M lat1 lon1 lat2 lon2) \<noteq> None) =
    (\<not> in_range (- 90) 90 lat1 \<or> \<not> in_range (- 90) 90 lat2 \<or>
     \<not> in_range (- 180) 180 lon1 \<or> \<not> in_range (- 180) 180 lon2)) \<and>
   ((\<not> in_range (- 90) 90 lat1 \<or> \<not> in_range (- 90) 90 lat2 \<or>
     \<not> in_range (- 180) 180 lon1 \<or> \<not> in_range (- 180) 180 lon2) \<longrightarrow>
    Haversine M lat1 lon1 lat2 lon2 = (Fin (- 1), Some InvalidCoordinate)) \<and>
   (in_range (- 90) 90 lat1 \<and> in_range (- 90) 90 lat2 \<and>
    in_range (- 180) 180 lon1 \<and> in_range (- 180) 180 lon2 \<longrightarrow>
    snd (Haversine M lat1 lon1 lat2 lon2) = None)"
proof (cases "out_of_range lat1 lon1 lat2 lon2")
  case True
  from guard_rejects [OF True, of M] True show ?thesis
    by (simp add: out_of_range_def)
next
  case False
  from guard_accepts [OF False, of M] False show ?thesis
    by (simp add: out_of_range_def)
qed

theorem Haversine_invalid_iff_witness:
  "Haversine exact (Fin 91) (Fin 0) (Fin 0) (Fin 0) = (Fin (- 1), Some InvalidCoordinate) \<and>
   Haversine exact (Fin 0) (Fin (- 181)) (Fin 0) (Fin 0) = (Fin (- 1), Some InvalidCoordinate) \<and>
   snd (Haversine exact (Fin 40.7128) (Fin (- 74.0060)) (Fin 34.0549) (Fin (- 118.2426))) = None"
  using Haversine_invalid_iff [of exact "Fin 91" "Fin 0" "Fin 0" "Fin 0"]
    Haversine_invalid_iff [of exact "Fin 0" "Fin (- 181)" "Fin 0" "Fin 0"]
    Haversine_invalid_iff [of exact "Fin 40.7128" "Fin (- 74.0060)" "Fin 34.0549" "Fin (- 118.2426)"]
  by (simp add: in_range_def)

text \<open>
  C3. The validation bounds are inclusive. A latitude of exactly \<open>90\<close> or \<open>-90\<close> and a
  longitude of exactly \<open>180\<close> or \<open>-180\<close> pass the checks, and \<open>Haversine\<close> returns a nil
  error when each coordinate is such a bound or lies in its interval. A latitude of \<open>90.0001\<close> or a longitude of
  \<open>180.0001\<close>, in whichever of the four positions, is rejected with \<open>-1\<close> and the
  \<open>InvalidCoordinate\<close> error; so is every finite value above \<open>90\<close>, respectively \<open>180\<close>
  (the float64 nearest to the decimal \<open>90.0001\<close> is one of them).
\<close>

theorem Haversine_bounds_inclusive:
  "isValidLatitude (Fin 90) \<and> isValidLatitude (Fin (- 90)) \<and>
   isValidLongitude (Fin 180) \<and> isValidLongitude (Fin (- 180)) \<and>
   (\<forall>a b c d.
      (a \<in> {Fin 90, Fin (- 90)} \<or> in_range (- 90) 90 a) \<and>
      (b \<in> {Fin 180, Fin (- 180)} \<or> in_range (- 180) 180 b) \<and>
      (c \<in> {Fin 90, Fin (- 90)} \<or> in_range (- 90) 90 c) \<and>
      (d \<in> {Fin 180, Fin (- 180)} \<or> in_range (- 180) 180 d) \<longrightarrow>
      snd (Haversine M a b c d) = None) \<and>
   \<not> isValidLatitude (Fin 90.0001) \<and> \<not> isValidLongitude (Fin 180.0001) \<and>
   (\<forall>r. 90 < r \<longrightarrow> \<not> isValidLatitude (Fin r)) \<and>
   (\<forall>r. 180 < r \<longrightarrow> \<not> isValidLongitude (Fin r)) \<and>
   Haversine M (Fin 90.0001) lon1 lat2 lon2 = (Fin (- 1), Some InvalidCoordinate) \<and>
   Haversine M lat1 lon1 (Fin 90.0001) lon2 = (Fin (- 1), Some InvalidCoordinate) \<and>
   Haversine M lat1 (Fin 180.0001) lat2 lon2 = (Fin (- 1), Some InvalidCoordinate) \<and>
   Haversine M lat1 lon1 lat2 (Fin 180.0001) = (Fin (- 1), Some InvalidCoordinate)"
proof -
  have valid: "isValidLatitude (Fin 90)" "isValidLatitude (Fin (- 90))"
    "isValidLongitude (Fin 180)" "isValidLongitude (Fin (- 180))"
    by (simp_all add: isValidLatitude_in_range isValidLongitude_in_range in_range_def)
  have above: "\<not> isValidLatitude (Fin r)" if "90 < r" for r
    using that by (simp add: isValidLatitude_in_range in_range_def)
  have above': "\<not> isValidLongitude (Fin r)" if "180 < r" for r
    using that by (simp add: isValidLongitude_in_range in_range_def)
  have accept: "snd (Haversine M a b c d) = None"
    if "a \<in> {Fin 90, Fin (- 90)} \<or> in_range (- 90) 90 a"
       "b \<in> {Fin 180, Fin (- 180)} \<or> in_range (- 180) 180 b"
       "c \<in> {Fin 90, Fin (- 90)} \<or> in_range (- 90) 90 c"
       "d \<in> {Fin 180, Fin (- 180)} \<or> in_range (- 180) 180 d" for a b c d
  proof (rule guard_accepts)
    from that have "in_range (- 90) 90 a" "in_range (- 180) 180 b"
      "in_range (- 90) 90 c" "in_range (- 180) 180 d"
      by (auto simp: in_range_def)
    then show "\<not> out_of_range a b c d"
      by (simp add: out_of_range_def)
  qed
  have lat: "\<not> in_range (- 90) 90 (Fin 90.0001)"
    and lon: "\<not> in_range (- 180) 180 (Fin 180.0001)"
    by (simp_all add: in_range_def)
  have reject:
    "Haversine M (Fin 90.0001) lon1 lat2 lon2 = (Fin (- 1), Some InvalidCoordinate)"
    "Haversine M lat1 lon1 (Fin 90.0001) lon2 = (Fin (- 1), Some InvalidCoordinate)"
    "Haversine M lat1 (Fin 180.0001) lat2 lon2 = (Fin (- 1), Some InvalidCoordinate)"
    "Haversine M lat1 lon1 lat2 (Fin 180.0001) = (Fin (- 1), Some InvalidCoordinate)"
    using lat lon by (simp_all add: guard_rejects out_of_range_def)
  from valid above above' accept reject show ?thesis
    by (simp add: isValidLatitude_in_range isValidLongitude_in_range lat lon)
qed

theorem Haversine_bounds_inclusive_witness:
  "snd (Haversine exact (Fin 90) (Fin 180) (Fin (- 90)) (Fin (- 180))) = None \<and>
   snd (Haversine exact (Fin (- 90)) (Fin 0) (Fin 0) (Fin 180)) = None \<and>
   \<not> isValidLatitude (Fin 91) \<and> \<not> isValidLongitude (Fin 181) \<and>
   Haversine exact (Fin 90.0001) (Fin 0) (Fin 0) (Fin 0) = (Fin (- 1), Some InvalidCoordinate) \<and>
   Haversine exact (Fin 0) (Fin 180.0001) (Fin 0) (Fin 0) = (Fin (- 1), Some InvalidCoordinate)"
  using Haversine_bounds_inclusive [of exact "Fin 0" "Fin 0" "Fin 0" "Fin 0"]
  by (simp add: in_range_def)

text \<open>
  C9. Non-finite inputs are rejected. If \<open>x\<close> is a NaN, \<open>+Inf\<close> or \<open>-Inf\<close>, both range checks
  are false at \<open>x\<close>, and \<open>Haversine\<close> with \<open>x\<close> in any of the four positions returns \<open>-1\<close> and
  the \<open>InvalidCoordinate\<close> error, whatever the arithmetic (no operation of it is applied).
  Conversely, whenever \<open>Haversine\<close> returns a nil error, which is when it computes, all four
  arguments are finite.
\<close>

theorem Haversine_rejects_non_finite:
  "(x \<in> {NaN, PosInf, NegInf} \<longrightarrow>
      \<not> isValidLatitude x \<and> \<not> isValidLongitude x \<and>
      Haversine M x lon1 lat2 lon2 = (Fin (- 1), Some InvalidCoordinate) \<and>
      Haversine M lat1 x lat2 lon2 = (Fin (- 1), Some InvalidCoordinate) \<and>
      Haversine M lat1 lon1 x lon2 = (Fin (- 1), Some InvalidCoordinate) \<and>
      Haversine M lat1 lon1 lat2 x = (Fin (- 1), Some InvalidCoordinate)) \<and>
   (snd (Haversine M lat1 lon1 lat2 lon2) = None \<longrightarrow>
      finite64 lat1 \<and> finite64 lon1 \<and> finite64 lat2 \<and> finite64 lon2)"
proof (intro conjI impI)
  assume x: "x \<in> {NaN, PosInf, NegInf}"
  then have out: "\<not> in_range lo hi x" for lo hi
    by (auto simp: in_range_def)
  from out show "\<not> isValidLatitude x" "\<not> isValidLongitude x"
    by (simp_all add: isValidLatitude_in_range isValidLongitude_in_range)
  from out show "Haversine M x lon1 lat2 lon2 = (Fin (- 1), Some InvalidCoordinate)"
    "Haversine M lat1 x lat2 lon2 = (Fin (- 1), Some InvalidCoordinate)"
    "Haversine M lat1 lon1 x lon2 = (Fin (- 1), Some InvalidCoordinate)"
    "Haversine M lat1 lon1 lat2 x = (Fin (- 1), Some InvalidCoordinate)"
    by (simp_all add: guard_rejects out_of_range_def)
next
  assume nil: "snd (Haversine M lat1 lon1 lat2 lon2) = None"
  have "\<not> out_of_range lat1 lon1 lat2 lon2"
  proof
    assume "out_of_range lat1 lon1 lat2 lon2"
    from guard_rejects [OF this, of M] nil show False by simp
  qed
  then show "finite64 lat1" "finite64 lon1" "finite64 lat2" "finite64 lon2"
    by (simp_all add: out_of_range_def in_range_def)
qed

theorem Haversine_rejects_non_finite_witness:
  "Haversine exact NaN (Fin 0) (Fin 0) (Fin 0) = (Fin (- 1), Some InvalidCoordinate) \<and>
   Haversine exact (Fin 0) PosInf (Fin 0) (Fin 0) = (Fin (- 1), Some InvalidCoordinate) \<and>
   Haversine exact (Fin 0) (Fin 0) NegInf (Fin 0) = (Fin (- 1), Some InvalidCoordinate) \<and>
   Haversine exact (Fin 0) (Fin 0) (Fin 0) NaN = (Fin (- 1), Some InvalidCoordinate) \<and>
   \<not> isValidLatitude PosInf \<and> \<not> isValidLongitude NegInf"
  using Haversine_rejects_non_finite [of NaN exact "Fin 0" "Fin 0" "Fin 0" "Fin 0"]
    Haversine_rejects_non_finite [of PosInf exact "Fin 0" "Fin 0" "Fin 0" "Fin 0"]
    Haversine_rejects_non_finite [of NegInf exact "Fin 0" "Fin 0" "Fin 0" "Fin 0"]
  by simp

section \<open>The algorithm\<close>

lemma degToRad_radians: "degToRad M deg = radians M deg"
  by (simp add: degToRad_def radians_def)

lemma valid_computes:
  assumes valid: "\<not> out_of_range lat1 lon1 lat2 lon2"
  shows "Haversine M lat1 lon1 lat2 lon2 = (spec_distance M lat1 lon1 lat2 lon2, None)"
  unfolding Haversine_def guard_out_of_range if_not_P [OF valid]
  by (simp add: Let_def degToRad_radians spec_distance_def spec_c_def spec_a_def
      sin_squared_def earthRadiusKm_def earthRadius_def)

text \<open>
  C1. For every input with \<open>lat1\<close> and \<open>lat2\<close> in \<open>[-90, 90]\<close> and \<open>lon1\<close> and \<open>lon2\<close> in
  \<open>[-180, 180]\<close>, \<open>Haversine\<close> returns a nil error and the distance of the specified
  algorithm: the source composes the operations of the arithmetic exactly as the
  specification's four steps do.
\<close>

theorem Haversine_computes_spec:
  assumes "in_range (- 90) 90 lat1" and "in_range (- 90) 90 lat2"
    and "in_range (- 180) 180 lon1" and "in_range (- 180) 180 lon2"
  shows "Haversine M lat1 lon1 lat2 lon2 = (spec_distance M lat1 lon1 lat2 lon2, None)"
proof (rule valid_computes)
  from assms show "\<not> out_of_range lat1 lon1 lat2 lon2"
    by (simp add: out_of_range_def)
qed

theorem Haversine_computes_spec_witness:
  "in_range (- 90) 90 (Fin 40.7128) \<and> in_range (- 180) 180 (Fin (- 74.0060)) \<and>
   in_range (- 90) 90 (Fin 34.0549) \<and> in_range (- 180) 180 (Fin (- 118.2426)) \<and>
   Haversine exact (Fin 40.7128) (Fin (- 74.0060)) (Fin 34.0549) (Fin (- 118.2426)) =
     (spec_distance exact (Fin 40.7128) (Fin (- 74.0060)) (Fin 34.0549) (Fin (- 118.2426)), None)"
proof -
  have h: "in_range (- 90) 90 (Fin 40.7128)" "in_range (- 90) 90 (Fin 34.0549)"
    "in_range (- 180) 180 (Fin (- 74.0060))" "in_range (- 180) 180 (Fin (- 118.2426))"
    by (simp_all add: in_range_def)
  from h Haversine_computes_spec [OF h, of exact] show ?thesis by simp
qed

section \<open>The exact arithmetic has the properties\<close>

lemma fneg_signed: "fneg (signed b r) = signed (\<not> b) (- r)"
  by (simp add: signed_def)

lemma finite64_fneg [simp]: "finite64 (fneg x) = finite64 x"
  by (cases x) simp_all

lemma num_fneg [simp]: "num (fneg x) = - num x"
  by (cases x) simp_all

lemma sgnbit_fneg: "finite64 x \<Longrightarrow> sgnbit (fneg x) = (\<not> sgnbit x)"
  by (cases x) auto

lemma x_sub_anti: "x_sub x y = fneg (x_sub y x) \<or> x_sub x y = Fin 0 \<and> x_sub y x = Fin 0"
  by (cases x; cases y) (auto simp: x_sub_def signed_def)

lemma x_mul_fneg: "x_mul (fneg x) y = fneg (x_mul x y)"
  by (auto simp: x_mul_def fneg_signed sgnbit_fneg)

lemma x_div_fneg: "x_div (fneg x) y = fneg (x_div x y)"
  by (auto simp: x_div_def fneg_signed sgnbit_fneg)

lemma x_mul_commute: "x_mul x y = x_mul y x"
  by (cases "sgnbit x"; cases "sgnbit y") (simp_all add: x_mul_def mult.commute)

lemma x_sin_fneg: "x_sin (fneg x) = fneg (x_sin x)"
  by (auto simp: x_sin_def fneg_signed sgnbit_fneg)

lemma x_pow_fneg: "x_pow (fneg x) (Fin 2) = x_pow x (Fin 2)"
  by (auto simp: x_pow_def)

lemma exact_sign_symmetric: "sign_symmetric exact"
  unfolding sign_symmetric_def exact_def
  using x_sub_anti x_mul_fneg x_div_fneg x_mul_commute x_sin_fneg x_pow_fneg
  by simp

lemma in_range_signed: "in_range lo hi (signed s r) = (lo \<le> r \<and> r \<le> hi)"
  by (auto simp: signed_def in_range_def)

lemma finite64_signed [simp]: "finite64 (signed s r)"
  by (simp add: signed_def)

lemma x_sub_self: "finite64 x \<Longrightarrow> x_sub x x = Fin 0"
  by (simp add: x_sub_def signed_def)

lemma x_mul_zero: "finite64 x \<Longrightarrow> is_zero (x_mul x (Fin 0))"
  by (simp add: x_mul_def signed_def is_zero_def)

lemma x_add_zero: "is_zero z \<Longrightarrow> x_add (Fin 0) z = Fin 0"
  by (auto simp: x_add_def signed_def is_zero_def)

lemma x_mul_unit:
  assumes "in_range (- 1) 1 x" and "in_range (- 1) 1 y"
  shows "in_range (- 1) 1 (x_mul x y)"
proof -
  from assms have "\<bar>num x\<bar> \<le> 1" "\<bar>num y\<bar> \<le> 1"
    by (simp_all add: in_range_def abs_le_iff)
  then have "\<bar>num x * num y\<bar> \<le> 1"
    by (simp add: abs_mult mult_le_one)
  then have "in_range (- 1) 1 (signed (sgnbit x \<noteq> sgnbit y) (num x * num y))"
    by (simp only: in_range_signed) (simp add: abs_le_iff)
  with assms show ?thesis
    by (simp add: x_mul_def in_range_def)
qed

lemma exact_exact_at_zero: "exact_at_zero exact"
  unfolding exact_at_zero_def exact_def
  apply (simp add: x_sub_self x_mul_zero x_add_zero x_mul_unit)
  apply (simp add: x_mul_def x_div_def x_sub_def x_sin_def x_pow_def x_sqrt_def x_atan2_def x_cos_def
      signed_def in_range_def)
  done

section \<open>Symmetry\<close>

lemma sign_symmetricD:
  assumes "sign_symmetric M"
  shows "fsub M x y = fneg (fsub M y x) \<or> fsub M x y = Fin 0 \<and> fsub M y x = Fin 0"
    and "fmul M (fneg x) y = fneg (fmul M x y)"
    and "fdiv M (fneg x) y = fneg (fdiv M x y)"
    and "fmul M x y = fmul M y x"
    and "math_Sin M (fneg x) = fneg (math_Sin M x)"
    and "math_Pow M (fneg x) (Fin 2) = math_Pow M x (Fin 2)"
  using assms unfolding sign_symmetric_def by blast+

lemma degToRad_fneg:
  assumes "sign_symmetric M"
  shows "degToRad M (fneg x) = fneg (degToRad M x)"
  by (simp add: degToRad_def sign_symmetricD(2,3) [OF assms])

lemma half_angle_fneg:
  assumes "sign_symmetric M"
  shows "math_Pow M (math_Sin M (fdiv M (degToRad M (fneg u)) (Fin 2))) (Fin 2) =
         math_Pow M (math_Sin M (fdiv M (degToRad M u) (Fin 2))) (Fin 2)"
  by (simp add: degToRad_fneg [OF assms] sign_symmetricD(3,5,6) [OF assms])

lemma half_angle_swap:
  assumes "sign_symmetric M"
  shows "math_Pow M (math_Sin M (fdiv M (degToRad M (fsub M x y)) (Fin 2))) (Fin 2) =
         math_Pow M (math_Sin M (fdiv M (degToRad M (fsub M y x)) (Fin 2))) (Fin 2)"
proof -
  from sign_symmetricD(1) [OF assms, of x y]
  consider "fsub M x y = fneg (fsub M y x)" | "fsub M x y = Fin 0" "fsub M y x = Fin 0"
    by blast
  then show ?thesis
  proof cases
    case 1
    then show ?thesis by (simp add: half_angle_fneg [OF assms])
  next
    case 2
    then show ?thesis by simp
  qed
qed

lemma cos_product_swap:
  assumes "sign_symmetric M"
  shows "fmul M (math_Cos M u) (math_Cos M v) = fmul M (math_Cos M v) (math_Cos M u)"
  by (rule sign_symmetricD(4) [OF assms])

text \<open>
  C5. Symmetry: \<open>Haversine(lat1, lon1, lat2, lon2)\<close> returns exactly the same distance and
  the same error as \<open>Haversine(lat2, lon2, lat1, lon1)\<close>, on every sign-symmetric arithmetic.
  It holds for every pair of inputs, the valid ones in particular: exchanging the points
  negates \<open>lat2 - lat1\<close> and \<open>lon2 - lon1\<close> (or leaves a zero), the sine of the half angle
  changes sign and its square does not, and the two cosines change places.
\<close>

theorem Haversine_symmetric:
  assumes "sign_symmetric M"
  shows "Haversine M lat1 lon1 lat2 lon2 = Haversine M lat2 lon2 lat1 lon1"
proof (cases "out_of_range lat1 lon1 lat2 lon2")
  case True
  then have "out_of_range lat2 lon2 lat1 lon1"
    by (auto simp: out_of_range_def)
  with True show ?thesis
    by (simp add: guard_rejects)
next
  case False
  then have swapped: "\<not> out_of_range lat2 lon2 lat1 lon1"
    by (auto simp: out_of_range_def)
  show ?thesis
    unfolding Haversine_def guard_out_of_range if_not_P [OF False] if_not_P [OF swapped] Let_def
    by (simp only: half_angle_swap [OF assms, of lat2 lat1] half_angle_swap [OF assms, of lon2 lon1]
        cos_product_swap [OF assms, of "degToRad M lat1" "degToRad M lat2"])
qed

theorem Haversine_symmetric_witness:
  "sign_symmetric exact \<and>
   Haversine exact (Fin 40.7128) (Fin (- 74.0060)) (Fin 34.0549) (Fin (- 118.2426)) =
   Haversine exact (Fin 34.0549) (Fin (- 118.2426)) (Fin 40.7128) (Fin (- 74.0060))"
  using exact_sign_symmetric
    Haversine_symmetric [OF exact_sign_symmetric,
      of "Fin 40.7128" "Fin (- 74.0060)" "Fin 34.0549" "Fin (- 118.2426)"]
  by simp

section \<open>Identity\<close>

lemma exact_at_zeroD:
  assumes "exact_at_zero M"
  shows "finite64 x \<Longrightarrow> fsub M x x = Fin 0"
    and "fmul M (Fin 0) (math_Pi M) = Fin 0"
    and "0 < r \<Longrightarrow> fmul M (Fin r) (Fin 0) = Fin 0"
    and "1 \<le> r \<Longrightarrow> fdiv M (Fin 0) (Fin r) = Fin 0"
    and "finite64 x \<Longrightarrow> is_zero (fmul M x (Fin 0))"
    and "is_zero z \<Longrightarrow> fadd M (Fin 0) z = Fin 0"
    and "fsub M (Fin 1) (Fin 0) = Fin 1"
    and "math_Sin M (Fin 0) = Fin 0"
    and "math_Pow M (Fin 0) (Fin 2) = Fin 0"
    and "math_Sqrt M (Fin 0) = Fin 0"
    and "math_Sqrt M (Fin 1) = Fin 1"
    and "math_Atan2 M (Fin 0) (Fin 1) = Fin 0"
    and "in_range (- 180) 180 x \<Longrightarrow> finite64 (fmul M x (math_Pi M))"
    and "finite64 x \<Longrightarrow> 1 \<le> r \<Longrightarrow> finite64 (fdiv M x (Fin r))"
    and "finite64 x \<Longrightarrow> in_range (- 1) 1 (math_Cos M x)"
    and "in_range (- 1) 1 x \<Longrightarrow> in_range (- 1) 1 y \<Longrightarrow> in_range (- 1) 1 (fmul M x y)"
  using assms unfolding exact_at_zero_def by blast+

lemma degToRad_zero:
  assumes "exact_at_zero M"
  shows "degToRad M (Fin 0) = Fin 0"
  by (simp add: degToRad_def exact_at_zeroD(2,4) [OF assms])

lemma half_angle_zero:
  assumes "exact_at_zero M"
  shows "math_Pow M (math_Sin M (fdiv M (degToRad M (Fin 0)) (Fin 2))) (Fin 2) = Fin 0"
  by (simp add: degToRad_zero [OF assms] exact_at_zeroD(4,8,9) [OF assms])

lemma degToRad_finite:
  assumes "exact_at_zero M" and "in_range (- 180) 180 x"
  shows "finite64 (degToRad M x)"
  unfolding degToRad_def
  by (rule exact_at_zeroD(14) [OF assms(1)]) (simp_all add: exact_at_zeroD(13) [OF assms])

lemma cos_product_finite:
  assumes "exact_at_zero M" and "in_range (- 90) 90 x" and "in_range (- 90) 90 y"
  shows "finite64 (fmul M (math_Cos M (degToRad M x)) (math_Cos M (degToRad M y)))"
proof -
  from assms(2,3) have "in_range (- 180) 180 x" "in_range (- 180) 180 y"
    by (simp_all add: in_range_def)
  then have "finite64 (degToRad M x)" "finite64 (degToRad M y)"
    by (simp_all add: degToRad_finite [OF assms(1)])
  then have "in_range (- 1) 1 (math_Cos M (degToRad M x))"
    "in_range (- 1) 1 (math_Cos M (degToRad M y))"
    by (simp_all add: exact_at_zeroD(15) [OF assms(1)])
  then have "in_range (- 1) 1 (fmul M (math_Cos M (degToRad M x)) (math_Cos M (degToRad M y)))"
    by (rule exact_at_zeroD(16) [OF assms(1)])
  then show ?thesis by (simp add: in_range_def)
qed

text \<open>
  C6. Identity: for every valid coordinate pair \<open>(lat, lon)\<close>,
  \<open>Haversine(lat, lon, lat, lon)\<close> returns the distance \<open>0\<close> (the positive zero) and a nil
  error, on every arithmetic with the exact cases above: both differences are \<open>+0\<close>, so both
  squared sines are \<open>+0\<close>, the product of the cosines is finite, \<open>a\<close> is \<open>+0\<close>,
  \<open>c = 2 * Atan2(+0, 1)\<close> is \<open>+0\<close> and so is \<open>6371 * c\<close>.
\<close>

theorem Haversine_identity:
  assumes "exact_at_zero M" and "in_range (- 90) 90 lat" and "in_range (- 180) 180 lon"
  shows "Haversine M lat lon lat lon = (Fin 0, None)"
proof -
  from assms(2,3) have valid: "\<not> out_of_range lat lon lat lon"
    by (simp add: out_of_range_def)
  from assms(2,3) have fin: "finite64 lat" "finite64 lon"
    by (simp_all add: in_range_def)
  have dLat: "fsub M lat lat = Fin 0" and dLon: "fsub M lon lon = Fin 0"
    using fin by (simp_all add: exact_at_zeroD(1) [OF assms(1)])
  have "is_zero (fmul M (fmul M (math_Cos M (degToRad M lat)) (math_Cos M (degToRad M lat))) (Fin 0))"
    by (rule exact_at_zeroD(5) [OF assms(1)]) (rule cos_product_finite [OF assms(1,2,2)])
  then have a: "fadd M (Fin 0)
      (fmul M (fmul M (math_Cos M (degToRad M lat)) (math_Cos M (degToRad M lat))) (Fin 0)) = Fin 0"
    by (rule exact_at_zeroD(6) [OF assms(1)])
  have c: "fmul M (Fin 2) (math_Atan2 M (math_Sqrt M (Fin 0)) (math_Sqrt M (fsub M (Fin 1) (Fin 0)))) = Fin 0"
    by (simp add: exact_at_zeroD(3,7,10,11,12) [OF assms(1)])
  have d: "fmul M (Fin earthRadius) (Fin 0) = Fin 0"
    by (simp add: earthRadius_def exact_at_zeroD(3) [OF assms(1)])
  show ?thesis
    unfolding Haversine_def guard_out_of_range if_not_P [OF valid] Let_def dLat dLon
      half_angle_zero [OF assms(1)] a c d ..
qed

theorem Haversine_identity_witness:
  "exact_at_zero exact \<and> in_range (- 90) 90 (Fin 40.7128) \<and>
   in_range (- 180) 180 (Fin (- 74.0060)) \<and>
   Haversine exact (Fin 40.7128) (Fin (- 74.0060)) (Fin 40.7128) (Fin (- 74.0060)) = (Fin 0, None)"
proof -
  have h: "in_range (- 90) 90 (Fin 40.7128)" "in_range (- 180) 180 (Fin (- 74.0060))"
    by (simp_all add: in_range_def)
  from h exact_exact_at_zero Haversine_identity [OF exact_exact_at_zero h] show ?thesis
    by simp
qed

section \<open>Enclosures on an accurate arithmetic\<close>

text \<open>
  On an accurate arithmetic a result is enclosed by rational bounds computed from the
  bounds of the operands: each lemma below is one operation of the source.
\<close>

lemma accurateD:
  assumes "accurate M"
  shows "small x \<Longrightarrow> small y \<Longrightarrow> near (fadd M x y) (num x + num y)"
    and "small x \<Longrightarrow> small y \<Longrightarrow> near (fsub M x y) (num x - num y)"
    and "small x \<Longrightarrow> small y \<Longrightarrow> near (fmul M x y) (num x * num y)"
    and "small x \<Longrightarrow> small y \<Longrightarrow> 1 \<le> num y \<Longrightarrow> near (fdiv M x y) (num x / num y)"
    and "near (math_Pi M) pi"
    and "small x \<Longrightarrow> near (math_Sin M x) (sin (num x))"
    and "small x \<Longrightarrow> near (math_Cos M x) (cos (num x))"
    and "small x \<Longrightarrow> near (math_Pow M x (Fin 2)) ((num x)\<^sup>2)"
    and "small x \<Longrightarrow> 0 \<le> num x \<Longrightarrow> near (math_Sqrt M x) (sqrt (num x))"
    and "small y \<Longrightarrow> small x \<Longrightarrow> 0 < num x \<Longrightarrow> near (math_Atan2 M y x) (arctan (num y / num x))"
  using assms unfolding accurate_def by blast+

lemma near_in_range:
  assumes "near v r" and "lo + eps \<le> r" and "r \<le> hi - eps"
  shows "in_range lo hi v"
  using assms by (simp add: near_def in_range_def abs_le_iff)

lemma in_range_small:
  assumes "in_range lo hi x" and "- (10 ^ 4) \<le> lo" and "hi \<le> 10 ^ 4"
  shows "small x"
  using assms by (simp add: small_def in_range_def)

lemma in_rangeD:
  assumes "in_range lo hi x"
  shows "finite64 x" and "lo \<le> num x" and "num x \<le> hi"
  using assms by (simp_all add: in_range_def)

lemma step_add:
  assumes M: "accurate M" and x: "in_range lx ux x" and y: "in_range ly uy y"
    and sm: "- (10 ^ 4) \<le> lx" "ux \<le> 10 ^ 4" "- (10 ^ 4) \<le> ly" "uy \<le> 10 ^ 4"
    and lo: "lo + eps \<le> lx + ly" and hi: "ux + uy \<le> hi - eps"
  shows "in_range lo hi (fadd M x y)"
proof (rule near_in_range)
  show "near (fadd M x y) (num x + num y)"
    by (rule accurateD(1) [OF M]) (rule in_range_small [OF x sm(1,2)], rule in_range_small [OF y sm(3,4)])
  from in_rangeD [OF x] in_rangeD [OF y] lo hi
  show "lo + eps \<le> num x + num y" "num x + num y \<le> hi - eps"
    by linarith+
qed

lemma step_sub:
  assumes M: "accurate M" and x: "in_range lx ux x" and y: "in_range ly uy y"
    and sm: "- (10 ^ 4) \<le> lx" "ux \<le> 10 ^ 4" "- (10 ^ 4) \<le> ly" "uy \<le> 10 ^ 4"
    and lo: "lo + eps \<le> lx - uy" and hi: "ux - ly \<le> hi - eps"
  shows "in_range lo hi (fsub M x y)"
proof (rule near_in_range)
  show "near (fsub M x y) (num x - num y)"
    by (rule accurateD(2) [OF M]) (rule in_range_small [OF x sm(1,2)], rule in_range_small [OF y sm(3,4)])
  from in_rangeD [OF x] in_rangeD [OF y] lo hi
  show "lo + eps \<le> num x - num y" "num x - num y \<le> hi - eps"
    by linarith+
qed

lemma step_mul_pos:
  assumes M: "accurate M" and x: "in_range lx ux x" and y: "in_range ly uy y"
    and sm: "0 \<le> lx" "ux \<le> 10 ^ 4" "0 \<le> ly" "uy \<le> 10 ^ 4"
    and lo: "lo + eps \<le> lx * ly" and hi: "ux * uy \<le> hi - eps"
  shows "in_range lo hi (fmul M x y)"
proof (rule near_in_range)
  from sm have sm': "- (10 ^ 4) \<le> lx" "- (10 ^ 4) \<le> ly" by simp_all
  show "near (fmul M x y) (num x * num y)"
    by (rule accurateD(3) [OF M])
      (rule in_range_small [OF x sm'(1) sm(2)], rule in_range_small [OF y sm'(2) sm(4)])
  from in_rangeD [OF x] in_rangeD [OF y] sm
  have "lx * ly \<le> num x * num y" "num x * num y \<le> ux * uy"
    by (auto intro!: mult_mono)
  with lo hi show "lo + eps \<le> num x * num y" "num x * num y \<le> hi - eps"
    by linarith+
qed

lemma step_mul_neg:
  assumes M: "accurate M" and x: "in_range lx ux x" and y: "in_range ly uy y"
    and sm: "- (10 ^ 4) \<le> lx" "ux \<le> 0" "0 \<le> ly" "uy \<le> 10 ^ 4"
    and lo: "lo + eps \<le> lx * uy" and hi: "ux * ly \<le> hi - eps"
  shows "in_range lo hi (fmul M x y)"
proof (rule near_in_range)
  from sm have sm': "ux \<le> 10 ^ 4" "- (10 ^ 4) \<le> ly" by simp_all
  show "near (fmul M x y) (num x * num y)"
    by (rule accurateD(3) [OF M])
      (rule in_range_small [OF x sm(1) sm'(1)], rule in_range_small [OF y sm'(2) sm(4)])
  from in_rangeD [OF x] in_rangeD [OF y] sm
  have "(- num x) * num y \<le> (- lx) * uy"
    by (intro mult_mono) linarith+
  moreover from in_rangeD [OF x] in_rangeD [OF y] sm
  have "(- ux) * ly \<le> (- num x) * num y"
    by (intro mult_mono) linarith+
  ultimately show "lo + eps \<le> num x * num y" "num x * num y \<le> hi - eps"
    using lo hi by simp_all
qed

lemma step_div:
  assumes M: "accurate M" and x: "in_range lx ux x"
    and sm: "- (10 ^ 4) \<le> lx" "ux \<le> 10 ^ 4" "1 \<le> k" "k \<le> 10 ^ 4"
    and lo: "lo + eps \<le> lx / k" and hi: "ux / k \<le> hi - eps"
  shows "in_range lo hi (fdiv M x (Fin k))"
proof (rule near_in_range)
  from sm have k: "small (Fin k)" by (simp add: small_def in_range_def)
  from accurateD(4) [OF M in_range_small [OF x sm(1,2)] k] sm
  show "near (fdiv M x (Fin k)) (num x / k)" by simp
  from in_rangeD [OF x] sm have "lx / k \<le> num x / k" "num x / k \<le> ux / k"
    by (simp_all add: divide_right_mono)
  with lo hi show "lo + eps \<le> num x / k" "num x / k \<le> hi - eps"
    by linarith+
qed

subsection \<open>Bounds of sine, cosine and \<open>\<pi>\<close>\<close>

lemma sin_sum9: "(\<Sum>m<9. sin_coeff m * (x::real) ^ m) = x - x ^ 3 / 6 + x ^ 5 / 120 - x ^ 7 / 5040"
proof -
  have c: "sin_coeff (Suc 0) = 1" "sin_coeff 2 = 0" "sin_coeff 3 = - 1 / 6" "sin_coeff 4 = 0"
    "sin_coeff 5 = 1 / 120" "sin_coeff 6 = 0" "sin_coeff 7 = - 1 / 5040" "sin_coeff 8 = 0"
    by (simp_all add: sin_coeff_def fact_numeral)
  have "(\<Sum>m<9. sin_coeff m * x ^ m) = (\<Sum>m\<in>{0,1,2,3,4,5,6,7,8}. sin_coeff m * x ^ m)"
    by (rule sum.cong) auto
  also have "\<dots> = x - x ^ 3 / 6 + x ^ 5 / 120 - x ^ 7 / 5040"
    by (simp add: c)
  finally show ?thesis .
qed

lemma cos_sum10:
  "(\<Sum>m<10. cos_coeff m * (x::real) ^ m) = 1 - x\<^sup>2 / 2 + x ^ 4 / 24 - x ^ 6 / 720 + x ^ 8 / 40320"
proof -
  have c: "cos_coeff (Suc 0) = 0" "cos_coeff 2 = - 1 / 2" "cos_coeff 3 = 0" "cos_coeff 4 = 1 / 24"
    "cos_coeff 5 = 0" "cos_coeff 6 = - 1 / 720" "cos_coeff 7 = 0" "cos_coeff 8 = 1 / 40320"
    "cos_coeff 9 = 0"
    by (simp_all add: cos_coeff_def fact_numeral)
  have "(\<Sum>m<10. cos_coeff m * x ^ m) = (\<Sum>m\<in>{0,1,2,3,4,5,6,7,8,9}. cos_coeff m * x ^ m)"
    by (rule sum.cong) auto
  also have "\<dots> = 1 - x\<^sup>2 / 2 + x ^ 4 / 24 - x ^ 6 / 720 + x ^ 8 / 40320"
    by (simp add: c)
  finally show ?thesis .
qed

lemma sin_taylor:
  "\<bar>sin x - ((x::real) - x ^ 3 / 6 + x ^ 5 / 120 - x ^ 7 / 5040)\<bar> \<le> \<bar>x\<bar> ^ 9 / 362880"
proof -
  have f: "inverse (fact 9 :: real) = 1 / 362880"
    by (simp add: fact_numeral)
  have "\<bar>sin x - (\<Sum>m<9. sin_coeff m * x ^ m)\<bar> \<le> inverse (fact 9) * \<bar>x\<bar> ^ 9"
    by (rule Maclaurin_sin_bound)
  then show ?thesis
    unfolding sin_sum9 f by simp
qed

lemma cos_taylor:
  "\<bar>cos (x::real) - (1 - x\<^sup>2 / 2 + x ^ 4 / 24 - x ^ 6 / 720 + x ^ 8 / 40320)\<bar> \<le> \<bar>x\<bar> ^ 10 / 3628800"
proof -
  obtain t where t: "cos x = (\<Sum>m<10. cos_coeff m * x ^ m) + (cos (t + 1 / 2 * real 10 * pi) / fact 10) * x ^ 10"
    using Maclaurin_cos_expansion [of x 10] by blast
  define r where "r = (cos (t + 1 / 2 * real 10 * pi) / fact 10) * x ^ 10"
  have "\<bar>r\<bar> = \<bar>cos (t + 1 / 2 * real 10 * pi)\<bar> * (\<bar>x\<bar> ^ 10 / 3628800)"
    by (simp add: r_def abs_mult power_abs fact_numeral)
  also have "\<dots> \<le> 1 * (\<bar>x\<bar> ^ 10 / 3628800)"
    by (intro mult_right_mono) simp_all
  finally have "\<bar>r\<bar> \<le> \<bar>x\<bar> ^ 10 / 3628800"
    by simp
  moreover from t have "cos x - (1 - x\<^sup>2 / 2 + x ^ 4 / 24 - x ^ 6 / 720 + x ^ 8 / 40320) = r"
    by (simp only: cos_sum10 r_def)
  ultimately show ?thesis by simp
qed

lemma sin_lower: "(x::real) - x ^ 3 / 6 + x ^ 5 / 120 - x ^ 7 / 5040 - \<bar>x\<bar> ^ 9 / 362880 \<le> sin x"
  using sin_taylor [of x] by linarith

lemma sin_upper: "sin (x::real) \<le> x - x ^ 3 / 6 + x ^ 5 / 120 - x ^ 7 / 5040 + \<bar>x\<bar> ^ 9 / 362880"
  using sin_taylor [of x] by linarith

lemma cos_lower:
  "1 - (x::real)\<^sup>2 / 2 + x ^ 4 / 24 - x ^ 6 / 720 + x ^ 8 / 40320 - \<bar>x\<bar> ^ 10 / 3628800 \<le> cos x"
  using cos_taylor [of x] by linarith

lemma cos_upper:
  "cos (x::real) \<le> 1 - x\<^sup>2 / 2 + x ^ 4 / 24 - x ^ 6 / 720 + x ^ 8 / 40320 + \<bar>x\<bar> ^ 10 / 3628800"
  using cos_taylor [of x] by linarith

lemma pi_lower: "3.141592 < pi"
proof (rule ccontr)
  assume "\<not> 3.141592 < pi"
  then have le: "pi / 6 \<le> 3.141592 / 6" by simp
  have "sin (pi / 6) \<le> sin (3.141592 / 6)"
    by (rule sin_monotone_2pi_le [OF _ le]) (use pi_ge_two in simp_all)
  moreover have "sin (3.141592 / 6 :: real) < 1 / 2"
    by (rule le_less_trans [OF sin_upper]) (simp add: power_divide)
  ultimately show False by (simp add: sin_30)
qed

lemma pi_upper: "pi < 3.141593"
proof (rule ccontr)
  assume "\<not> pi < 3.141593"
  then have le: "3.141593 / 6 \<le> pi / 6" by simp
  have "sin (3.141593 / 6) \<le> sin (pi / 6)"
    by (rule sin_monotone_2pi_le [OF _ le]) (use pi_ge_two in simp_all)
  moreover have "1 / 2 < sin (3.141593 / 6 :: real)"
    by (rule less_le_trans [OF _ sin_lower]) (simp add: power_divide)
  ultimately show False by (simp add: sin_30)
qed

subsection \<open>The functions of the math package\<close>

lemma one_le_pi_half: "1 \<le> pi / 2"
  using pi_ge_two by simp

lemma step_pi:
  assumes M: "accurate M" and lo: "lo + eps \<le> 3.141592" and hi: "3.141593 \<le> hi - eps"
  shows "in_range lo hi (math_Pi M)"
  using accurateD(5) [OF M] pi_lower pi_upper lo hi
  by (intro near_in_range [where r = pi]) simp_all

lemma step_sin:
  assumes M: "accurate M" and x: "in_range lx ux x" and sm: "- 1 \<le> lx" "ux \<le> 1"
    and lo: "lo + eps \<le> sin lx" and hi: "sin ux \<le> hi - eps"
  shows "in_range lo hi (math_Sin M x)"
proof (rule near_in_range)
  from sm have "- (10 ^ 4) \<le> lx" "ux \<le> 10 ^ 4" by simp_all
  then show "near (math_Sin M x) (sin (num x))"
    by (intro accurateD(6) [OF M] in_range_small [OF x])
  from in_rangeD [OF x] sm one_le_pi_half
  have "sin lx \<le> sin (num x)" "sin (num x) \<le> sin ux"
    by (intro sin_monotone_2pi_le; linarith)+
  with lo hi show "lo + eps \<le> sin (num x)" "sin (num x) \<le> hi - eps"
    by linarith+
qed

lemma step_cos:
  assumes M: "accurate M" and x: "in_range lx ux x" and sm: "0 \<le> lx" "ux \<le> 2"
    and lo: "lo + eps \<le> cos ux" and hi: "cos lx \<le> hi - eps"
  shows "in_range lo hi (math_Cos M x)"
proof (rule near_in_range)
  from sm have "- (10 ^ 4) \<le> lx" "ux \<le> 10 ^ 4" by simp_all
  then show "near (math_Cos M x) (cos (num x))"
    by (intro accurateD(7) [OF M] in_range_small [OF x])
  from in_rangeD [OF x] sm pi_ge_two
  have "cos ux \<le> cos (num x)" "cos (num x) \<le> cos lx"
    by (intro cos_monotone_0_pi_le; linarith)+
  with lo hi show "lo + eps \<le> cos (num x)" "cos (num x) \<le> hi - eps"
    by linarith+
qed

lemma step_pow_neg:
  assumes M: "accurate M" and x: "in_range lx ux x" and sm: "- (10 ^ 4) \<le> lx" "ux \<le> 0"
    and lo: "lo + eps \<le> ux\<^sup>2" and hi: "lx\<^sup>2 \<le> hi - eps"
  shows "in_range lo hi (math_Pow M x (Fin 2))"
proof (rule near_in_range)
  from sm have "ux \<le> 10 ^ 4" by simp
  with sm show "near (math_Pow M x (Fin 2)) ((num x)\<^sup>2)"
    by (intro accurateD(8) [OF M] in_range_small [OF x])
  from in_rangeD [OF x] sm have "(- ux)\<^sup>2 \<le> (- num x)\<^sup>2" "(- num x)\<^sup>2 \<le> (- lx)\<^sup>2"
    by (intro power_mono; linarith)+
  with lo hi show "lo + eps \<le> (num x)\<^sup>2" "(num x)\<^sup>2 \<le> hi - eps"
    by simp_all
qed

lemma step_sqrt:
  assumes M: "accurate M" and x: "in_range lx ux x" and sm: "0 \<le> lx" "ux \<le> 10 ^ 4"
    and lo: "0 \<le> lo + eps" "(lo + eps)\<^sup>2 \<le> lx"
    and hi: "0 \<le> hi - eps" "ux \<le> (hi - eps)\<^sup>2"
  shows "in_range lo hi (math_Sqrt M x)"
proof (rule near_in_range)
  from sm have "- (10 ^ 4) \<le> lx" by simp
  with in_rangeD [OF x] sm show "near (math_Sqrt M x) (sqrt (num x))"
    by (intro accurateD(9) [OF M] in_range_small [OF x]) simp_all
  from in_rangeD [OF x] lo have "(lo + eps)\<^sup>2 \<le> num x" by linarith
  with lo(1) show "lo + eps \<le> sqrt (num x)"
    by (simp add: real_le_rsqrt)
  from in_rangeD [OF x] hi have "num x \<le> (hi - eps)\<^sup>2" by linarith
  with hi(1) show "sqrt (num x) \<le> hi - eps"
    by (simp add: real_le_lsqrt)
qed

lemma arctan_ge:
  assumes "- 1 \<le> u" and "u \<le> 1" and "sin u \<le> t * cos u"
  shows "u \<le> arctan t"
proof -
  from assms(1,2) pi_lower have u: "- (pi / 2) < u" "u < pi / 2"
    by simp_all
  then have c: "0 < cos u" by (rule cos_gt_zero_pi)
  with assms(3) have "tan u \<le> t"
    by (simp add: tan_def field_simps)
  then have "arctan (tan u) \<le> arctan t"
    by (simp add: arctan_le_iff)
  with u show ?thesis by (simp add: arctan_tan)
qed

lemma arctan_le:
  assumes "- 1 \<le> u" and "u \<le> 1" and "t * cos u \<le> sin u"
  shows "arctan t \<le> u"
proof -
  from assms(1,2) pi_lower have u: "- (pi / 2) < u" "u < pi / 2"
    by simp_all
  then have c: "0 < cos u" by (rule cos_gt_zero_pi)
  with assms(3) have "t \<le> tan u"
    by (simp add: tan_def field_simps)
  then have "arctan t \<le> arctan (tan u)"
    by (simp add: arctan_le_iff)
  with u show ?thesis by (simp add: arctan_tan)
qed

lemma step_atan2:
  assumes M: "accurate M" and y: "in_range ly uy y" and x: "in_range lx ux x"
    and sm: "0 \<le> ly" "uy \<le> 10 ^ 4" "0 < lx" "ux \<le> 10 ^ 4"
    and lo: "lo + eps \<le> arctan (ly / ux)" and hi: "arctan (uy / lx) \<le> hi - eps"
  shows "in_range lo hi (math_Atan2 M y x)"
proof (rule near_in_range)
  from in_rangeD [OF x] in_rangeD [OF y] sm
  have pos: "0 < num x" "0 \<le> num y" "0 < ux" by linarith+
  from sm have "- (10 ^ 4) \<le> ly" "- (10 ^ 4) \<le> lx" by simp_all
  with sm pos show "near (math_Atan2 M y x) (arctan (num y / num x))"
    by (intro accurateD(10) [OF M] in_range_small [OF x] in_range_small [OF y]) simp_all
  from in_rangeD [OF x] in_rangeD [OF y] sm pos
  have "ly / ux \<le> num y / num x" "num y / num x \<le> uy / lx"
    by (intro frac_le; linarith)+
  then have "arctan (ly / ux) \<le> arctan (num y / num x)" "arctan (num y / num x) \<le> arctan (uy / lx)"
    by (simp_all add: arctan_le_iff)
  with lo hi show "lo + eps \<le> arctan (num y / num x)" "arctan (num y / num x) \<le> hi - eps"
    by linarith+
qed

lemma arctan_ge_poly:
  assumes "- 1 \<le> u" and "u \<le> 1" and "0 \<le> t"
    and "u - u ^ 3 / 6 + u ^ 5 / 120 - u ^ 7 / 5040 + \<bar>u\<bar> ^ 9 / 362880 \<le>
         t * (1 - u\<^sup>2 / 2 + u ^ 4 / 24 - u ^ 6 / 720 + u ^ 8 / 40320 - \<bar>u\<bar> ^ 10 / 3628800)"
  shows "u \<le> arctan t"
proof (rule arctan_ge [OF assms(1,2)])
  from assms(3) cos_lower [of u]
  have "t * (1 - u\<^sup>2 / 2 + u ^ 4 / 24 - u ^ 6 / 720 + u ^ 8 / 40320 - \<bar>u\<bar> ^ 10 / 3628800) \<le> t * cos u"
    by (rule mult_left_mono [rotated])
  with assms(4) sin_upper [of u] show "sin u \<le> t * cos u"
    by linarith
qed

lemma arctan_le_poly:
  assumes "- 1 \<le> u" and "u \<le> 1" and "0 \<le> t"
    and "t * (1 - u\<^sup>2 / 2 + u ^ 4 / 24 - u ^ 6 / 720 + u ^ 8 / 40320 + \<bar>u\<bar> ^ 10 / 3628800) \<le>
         u - u ^ 3 / 6 + u ^ 5 / 120 - u ^ 7 / 5040 - \<bar>u\<bar> ^ 9 / 362880"
  shows "arctan t \<le> u"
proof (rule arctan_le [OF assms(1,2)])
  from assms(3) cos_upper [of u]
  have "t * cos u \<le> t * (1 - u\<^sup>2 / 2 + u ^ 4 / 24 - u ^ 6 / 720 + u ^ 8 / 40320 + \<bar>u\<bar> ^ 10 / 3628800)"
    by (rule mult_left_mono [rotated])
  with assms(4) sin_lower [of u] show "t * cos u \<le> sin u"
    by linarith
qed

lemma near_enclosed:
  assumes "near v r" and "lo \<le> r - eps" and "r + eps \<le> hi"
  shows "in_range lo hi v"
  using assms by (simp add: near_def in_range_def abs_le_iff)

lemma finite64_cases: "finite64 v \<Longrightarrow> v = NegZero \<or> v = Fin (num v)"
  by (cases v) simp_all

section \<open>New York City to Los Angeles\<close>

lemma num_signed [simp]: "num (signed s r) = r"
  by (simp add: signed_def)

lemma near_exact: "finite64 v \<Longrightarrow> num v = r \<Longrightarrow> near v r"
  by (simp add: near_def eps_def)

lemma x_atan2_exact:
  assumes "finite64 y" and "finite64 x" and "0 < num x"
  shows "finite64 (x_atan2 y x) \<and> num (x_atan2 y x) = arctan (num y / num x)"
proof -
  from assms(2,3) have "\<not> sgnbit x" by (cases x) simp_all
  with assms show ?thesis
    by (cases y) (simp_all add: x_atan2_def Let_def)
qed

lemma x_sqrt_exact:
  assumes "finite64 x" and "0 \<le> num x"
  shows "finite64 (x_sqrt x) \<and> num (x_sqrt x) = sqrt (num x)"
  using assms by (cases x) (simp_all add: x_sqrt_def)

lemma exact_accurate: "accurate exact"
  unfolding accurate_def exact_def
  by (auto simp: small_def in_range_def x_add_def x_sub_def x_mul_def x_div_def x_sin_def
      x_cos_def x_pow_def x_atan2_exact x_sqrt_exact intro!: near_exact)

text \<open>
  C7. \<open>Haversine(40.7128, -74.0060, 34.0549, -118.2426)\<close>, New York City to Los Angeles,
  returns a nil error and a distance within 1 km of 3935.75 km. It holds on every accurate
  arithmetic, for the four float64 arguments within \<open>eps\<close> of the decimal literals (the
  literals of the call are the nearest float64 values): the proof encloses each
  intermediate value of the source, and the distance lies between 3935.36 and 3935.70.
\<close>

theorem Haversine_NYC_LA:
  assumes M: "accurate M"
    and lat1: "near lat1 40.7128" and lon1: "near lon1 (- 74.0060)"
    and lat2: "near lat2 34.0549" and lon2: "near lon2 (- 118.2426)"
  shows "\<exists>km. Haversine M lat1 lon1 lat2 lon2 = (Fin km, None) \<and> \<bar>km - 3935.75\<bar> \<le> 1"
proof -
  define s1 where "s1 = fsub M lat2 lat1"
  define m1 where "m1 = fmul M s1 (math_Pi M)"
  define dLat where "dLat = fdiv M m1 (Fin 180)"
  define h1 where "h1 = fdiv M dLat (Fin 2)"
  define sn1 where "sn1 = math_Sin M h1"
  define p1 where "p1 = math_Pow M sn1 (Fin 2)"
  define s2 where "s2 = fsub M lon2 lon1"
  define m2 where "m2 = fmul M s2 (math_Pi M)"
  define dLon where "dLon = fdiv M m2 (Fin 180)"
  define h2 where "h2 = fdiv M dLon (Fin 2)"
  define sn2 where "sn2 = math_Sin M h2"
  define p2 where "p2 = math_Pow M sn2 (Fin 2)"
  define ml1 where "ml1 = fmul M lat1 (math_Pi M)"
  define r1 where "r1 = fdiv M ml1 (Fin 180)"
  define c1 where "c1 = math_Cos M r1"
  define ml2 where "ml2 = fmul M lat2 (math_Pi M)"
  define r2 where "r2 = fdiv M ml2 (Fin 180)"
  define c2 where "c2 = math_Cos M r2"
  define cc where "cc = fmul M c1 c2"
  define qq where "qq = fmul M cc p2"
  define aa where "aa = fadd M p1 qq"
  define sqa where "sqa = math_Sqrt M aa"
  define bb where "bb = fsub M (Fin 1) aa"
  define sqb where "sqb = math_Sqrt M bb"
  define ang where "ang = math_Atan2 M sqa sqb"
  define cv where "cv = fmul M (Fin 2) ang"
  define dist where "dist = fmul M (Fin 6371) cv"
  have r_lat1: "in_range 40.712799 40.712801 lat1"
    by (rule near_enclosed [OF lat1]) (simp_all add: eps_def)
  have r_lon1: "in_range (- 74.006001) (- 74.005999) lon1"
    by (rule near_enclosed [OF lon1]) (simp_all add: eps_def)
  have r_lat2: "in_range 34.054899 34.054901 lat2"
    by (rule near_enclosed [OF lat2]) (simp_all add: eps_def)
  have r_lon2: "in_range (- 118.242601) (- 118.242599) lon2"
    by (rule near_enclosed [OF lon2]) (simp_all add: eps_def)
  have r_Pi: "in_range 3.141591 3.141594 (math_Pi M)"
    by (rule step_pi [OF M]) (simp_all add: eps_def)
  have r_one: "in_range 1 1 (Fin 1)"
    by (simp add: in_range_def)
  have r_two: "in_range 2 2 (Fin 2)"
    by (simp add: in_range_def)
  have r_er: "in_range 6371 6371 (Fin 6371)"
    by (simp add: in_range_def)
  have r_s1: "in_range (- 6.657903) (- 6.657897) s1"
    unfolding s1_def by (rule step_sub [OF M r_lat2 r_lat1]) (simp_all add: eps_def)
  have r_m1: "in_range (- 20.9164292) (- 20.9163882) m1"
    unfolding m1_def by (rule step_mul_neg [OF M r_s1 r_Pi]) (simp_all add: eps_def)
  have r_dLat: "in_range (- 0.1162034) (- 0.1162011) dLat"
    unfolding dLat_def by (rule step_div [OF M r_m1]) (simp_all add: eps_def)
  have r_h1: "in_range (- 0.0581027) (- 0.0580995) h1"
    unfolding h1_def by (rule step_div [OF M r_dLat]) (simp_all add: eps_def)
  have r_sn1: "in_range (- 0.0580711) (- 0.0580658) sn1"
    unfolding sn1_def
  proof (rule step_sin [OF M r_h1])
    show "(- 0.0580711) + eps \<le> sin (- 0.0581027)"
      by (rule order_trans [OF _ sin_lower]) (simp add: eps_def power_divide)
    show "sin (- 0.0580995) \<le> (- 0.0580658) - eps"
      by (rule order_trans [OF sin_upper]) (simp add: eps_def power_divide)
  qed simp_all
  have r_p1: "in_range 0.0033706 0.0033733 p1"
    unfolding p1_def by (rule step_pow_neg [OF M r_sn1]) (simp_all add: eps_def power2_eq_square)
  have r_s2: "in_range (- 44.236603) (- 44.236597) s2"
    unfolding s2_def by (rule step_sub [OF M r_lon2 r_lon1]) (simp_all add: eps_def)
  have r_m2: "in_range (- 138.9734476) (- 138.973294) m2"
    unfolding m2_def by (rule step_mul_neg [OF M r_s2 r_Pi]) (simp_all add: eps_def)
  have r_dLon: "in_range (- 0.7720758) (- 0.7720728) dLon"
    unfolding dLon_def by (rule step_div [OF M r_m2]) (simp_all add: eps_def)
  have r_h2: "in_range (- 0.3860389) (- 0.3860354) h2"
    unfolding h2_def by (rule step_div [OF M r_dLon]) (simp_all add: eps_def)
  have r_sn2: "in_range (- 0.3765228) (- 0.3765175) sn2"
    unfolding sn2_def
  proof (rule step_sin [OF M r_h2])
    show "(- 0.3765228) + eps \<le> sin (- 0.3860389)"
      by (rule order_trans [OF _ sin_lower]) (simp add: eps_def power_divide)
    show "sin (- 0.3860354) \<le> (- 0.3765175) - eps"
      by (rule order_trans [OF sin_upper]) (simp add: eps_def power_divide)
  qed simp_all
  have r_p2: "in_range 0.1417644 0.1417705 p2"
    unfolding p2_def by (rule step_pow_neg [OF M r_sn2]) (simp_all add: eps_def power2_eq_square)
  have r_ml1: "in_range 127.9029619 127.9030924 ml1"
    unfolding ml1_def by (rule step_mul_pos [OF M r_lat1 r_Pi]) (simp_all add: eps_def)
  have r_r1: "in_range 0.710571 0.7105738 r1"
    unfolding r1_def by (rule step_div [OF M r_ml1]) (simp_all add: eps_def)
  have r_c1: "in_range 0.7579867 0.7579906 c1"
    unfolding c1_def
  proof (rule step_cos [OF M r_r1])
    show "0.7579867 + eps \<le> cos 0.7105738"
      by (rule order_trans [OF _ cos_lower]) (simp add: eps_def power_divide)
    show "cos 0.710571 \<le> 0.7579906 - eps"
      by (rule order_trans [OF cos_upper]) (simp add: eps_def power_divide)
  qed simp_all
  have r_ml2: "in_range 106.9865632 106.9866737 ml2"
    unfolding ml2_def by (rule step_mul_pos [OF M r_lat2 r_Pi]) (simp_all add: eps_def)
  have r_r2: "in_range 0.5943687 0.5943715 r2"
    unfolding r2_def by (rule step_div [OF M r_ml2]) (simp_all add: eps_def)
  have r_c2: "in_range 0.8284996 0.8285032 c2"
    unfolding c2_def
  proof (rule step_cos [OF M r_r2])
    show "0.8284996 + eps \<le> cos 0.5943715"
      by (rule order_trans [OF _ cos_lower]) (simp add: eps_def power_divide)
    show "cos 0.5943687 \<le> 0.8285032 - eps"
      by (rule order_trans [OF cos_upper]) (simp add: eps_def power_divide)
  qed simp_all
  have r_cc: "in_range 0.6279906 0.6279987 cc"
    unfolding cc_def by (rule step_mul_pos [OF M r_c1 r_c2]) (simp_all add: eps_def)
  have r_qq: "in_range 0.0890257 0.0890327 qq"
    unfolding qq_def by (rule step_mul_pos [OF M r_cc r_p2]) (simp_all add: eps_def)
  have r_aa: "in_range 0.0923953 0.092407 aa"
    unfolding aa_def by (rule step_add [OF M r_p1 r_qq]) (simp_all add: eps_def)
  have r_sqa: "in_range 0.3039649 0.3039862 sqa"
    unfolding sqa_def by (rule step_sqrt [OF M r_aa]) (simp_all add: eps_def power2_eq_square)
  have r_bb: "in_range 0.907592 0.9076057 bb"
    unfolding bb_def by (rule step_sub [OF M r_one r_aa]) (simp_all add: eps_def)
  have r_sqb: "in_range 0.9526752 0.9526845 sqb"
    unfolding sqb_def by (rule step_sqrt [OF M r_bb]) (simp_all add: eps_def power2_eq_square)
  have r_ang: "in_range 0.3088503 0.3088755 ang"
    unfolding ang_def
  proof (rule step_atan2 [OF M r_sqa r_sqb])
    show "0.3088503 + eps \<le> arctan (0.3039649 / 0.9526845)"
      by (rule arctan_ge_poly) (simp_all add: eps_def power_divide)
    show "arctan (0.3039862 / 0.9526752) \<le> 0.3088755 - eps"
      by (rule arctan_le_poly) (simp_all add: eps_def power_divide)
  qed simp_all
  have r_cv: "in_range 0.6176996 0.617752 cv"
    unfolding cv_def by (rule step_mul_pos [OF M r_two r_ang]) (simp_all add: eps_def)
  have r_dist: "in_range 3935.3641506 3935.697993 dist"
    unfolding dist_def by (rule step_mul_pos [OF M r_er r_cv]) (simp_all add: eps_def)
  from r_lat1 r_lon1 r_lat2 r_lon2 have valid: "\<not> out_of_range lat1 lon1 lat2 lon2"
    by (simp add: out_of_range_def in_range_def)
  have result: "Haversine M lat1 lon1 lat2 lon2 = (dist, None)"
    unfolding Haversine_def guard_out_of_range if_not_P [OF valid] Let_def degToRad_def earthRadius_def
      dist_def cv_def ang_def sqb_def bb_def sqa_def aa_def qq_def cc_def c2_def r2_def ml2_def
      c1_def r1_def ml1_def p2_def sn2_def h2_def dLon_def m2_def s2_def p1_def sn1_def h1_def
      dLat_def m1_def s1_def ..
  from in_rangeD [OF r_dist] finite64_cases [of dist] have "dist = Fin (num dist)"
    by auto
  with result in_rangeD [OF r_dist] show ?thesis
    by (intro exI [of _ "num dist"]) (simp add: abs_le_iff)
qed

theorem Haversine_NYC_LA_witness:
  "accurate exact \<and> near (Fin 40.7128) 40.7128 \<and> near (Fin (- 74.0060)) (- 74.0060) \<and>
   near (Fin 34.0549) 34.0549 \<and> near (Fin (- 118.2426)) (- 118.2426) \<and>
   (\<exists>km. Haversine exact (Fin 40.7128) (Fin (- 74.0060)) (Fin 34.0549) (Fin (- 118.2426)) =
      (Fin km, None) \<and> \<bar>km - 3935.75\<bar> \<le> 1)"
proof -
  have h: "near (Fin 40.7128) 40.7128" "near (Fin (- 74.0060)) (- 74.0060)"
    "near (Fin 34.0549) 34.0549" "near (Fin (- 118.2426)) (- 118.2426)"
    by (simp_all add: near_def eps_def)
  from exact_accurate h Haversine_NYC_LA [OF exact_accurate h] show ?thesis
    by blast
qed

section \<open>The range of \<open>a\<close> and of the distance\<close>

text \<open>
  On the exact arithmetic the intermediate value \<open>a\<close> of a valid input lies in \<open>[0, 1]\<close>:
  with \<open>\<phi>\<^sub>1\<close>, \<open>\<phi>\<^sub>2\<close> the latitudes in radians, both cosines are non-negative and
  \<open>sin\<^sup>2((\<phi>\<^sub>2 - \<phi>\<^sub>1)/2) + cos \<phi>\<^sub>1 cos \<phi>\<^sub>2 = (1 + cos(\<phi>\<^sub>1 + \<phi>\<^sub>2))/2\<close>. Both square roots are then
  taken of non-negative numbers, \<open>math.Atan2\<close> returns an angle of the first quadrant and
  the distance lies between 0 and \<open>\<pi> * 6371\<close>.
\<close>

lemma haversine_unit_arith:
  fixes A X Y S :: real
  assumes "X \<le> Y" and "A = (1 - (Y + S)) / 2" and "Y - S \<le> 1"
  shows "A + X \<le> 1"
  using assms by (simp add: field_simps)

lemma haversine_unit:
  fixes p1 p2 l :: real
  assumes "\<bar>p1\<bar> \<le> pi / 2" and "\<bar>p2\<bar> \<le> pi / 2"
  shows "0 \<le> (sin ((p2 - p1) / 2))\<^sup>2 + cos p1 * cos p2 * (sin (l / 2))\<^sup>2"
    and "(sin ((p2 - p1) / 2))\<^sup>2 + cos p1 * cos p2 * (sin (l / 2))\<^sup>2 \<le> 1"
proof -
  from assms have c: "0 \<le> cos p1" "0 \<le> cos p2"
    by (simp_all add: cos_ge_zero abs_le_iff)
  then have cc: "0 \<le> cos p1 * cos p2" by simp
  then show "0 \<le> (sin ((p2 - p1) / 2))\<^sup>2 + cos p1 * cos p2 * (sin (l / 2))\<^sup>2"
    by simp
  have "(sin (l / 2))\<^sup>2 \<le> 1"
    by (simp add: power2_le_iff_abs_le abs_square_le_1)
  with cc have X: "cos p1 * cos p2 * (sin (l / 2))\<^sup>2 \<le> cos p1 * cos p2"
    using mult_left_mono [of "(sin (l / 2))\<^sup>2" 1 "cos p1 * cos p2"] by simp
  have "2 * ((p2 - p1) / 2) = p2 - p1" by simp
  with cos_double_sin [of "(p2 - p1) / 2"]
  have "cos (p2 - p1) = 1 - 2 * (sin ((p2 - p1) / 2))\<^sup>2" by (simp only:)
  then have A: "(sin ((p2 - p1) / 2))\<^sup>2 = (1 - (cos p1 * cos p2 + sin p1 * sin p2)) / 2"
    by (simp add: cos_diff mult.commute)
  have "cos (p1 + p2) \<le> 1" by simp
  then have S: "cos p1 * cos p2 - sin p1 * sin p2 \<le> 1"
    by (simp only: cos_add)
  from X A S show "(sin ((p2 - p1) / 2))\<^sup>2 + cos p1 * cos p2 * (sin (l / 2))\<^sup>2 \<le> 1"
    by (rule haversine_unit_arith)
qed

lemma exact_ops:
  assumes "finite64 x" and "finite64 y"
  shows "finite64 (x_add x y)" "num (x_add x y) = num x + num y"
    and "finite64 (x_sub x y)" "num (x_sub x y) = num x - num y"
    and "finite64 (x_mul x y)" "num (x_mul x y) = num x * num y"
    and "num y \<noteq> 0 \<Longrightarrow> finite64 (x_div x y)" "num y \<noteq> 0 \<Longrightarrow> num (x_div x y) = num x / num y"
  using assms by (simp_all add: x_add_def x_sub_def x_mul_def x_div_def)

lemma exact_funs:
  assumes "finite64 x"
  shows "finite64 (x_sin x)" "num (x_sin x) = sin (num x)"
    and "finite64 (x_cos x)" "num (x_cos x) = cos (num x)"
    and "finite64 (x_pow x (Fin 2))" "num (x_pow x (Fin 2)) = (num x)\<^sup>2"
  using assms by (simp_all add: x_sin_def x_cos_def x_pow_def)

lemma exact_fields:
  "fadd exact = x_add" "fsub exact = x_sub" "fmul exact = x_mul" "fdiv exact = x_div"
  "math_Pi exact = Fin pi" "math_Sin exact = x_sin" "math_Cos exact = x_cos"
  "math_Pow exact = x_pow" "math_Sqrt exact = x_sqrt" "math_Atan2 exact = x_atan2"
  by (simp_all add: exact_def)

lemma degrees_quarter_turn:
  fixes r :: real
  assumes "- 90 \<le> r" and "r \<le> 90"
  shows "\<bar>r * pi / 180\<bar> \<le> pi / 2"
proof -
  from assms have "\<bar>r\<bar> \<le> 90" by simp
  then have "\<bar>r\<bar> * pi \<le> 90 * pi" by (simp add: mult_right_mono)
  then show ?thesis by (simp add: abs_mult)
qed

lemma exact_a_value:
  assumes "finite64 lat1" and "finite64 lat2" and "finite64 lon1" and "finite64 lon2"
  shows "finite64 (spec_a exact lat1 lon1 lat2 lon2)"
    and "num (spec_a exact lat1 lon1 lat2 lon2) =
      (sin ((num lat2 - num lat1) * pi / 180 / 2))\<^sup>2 +
      cos (num lat1 * pi / 180) * cos (num lat2 * pi / 180) *
      (sin ((num lon2 - num lon1) * pi / 180 / 2))\<^sup>2"
  using assms
  by (simp_all add: spec_a_def radians_def sin_squared_def exact_fields exact_ops exact_funs)

lemma exact_a_unit:
  assumes "in_range (- 90) 90 lat1" and "in_range (- 90) 90 lat2"
    and "in_range (- 180) 180 lon1" and "in_range (- 180) 180 lon2"
  shows "in_range 0 1 (spec_a exact lat1 lon1 lat2 lon2)"
proof -
  from assms have fin: "finite64 lat1" "finite64 lat2" "finite64 lon1" "finite64 lon2"
    by (simp_all add: in_range_def)
  define p1 where "p1 = num lat1 * pi / 180"
  define p2 where "p2 = num lat2 * pi / 180"
  define l where "l = (num lon2 - num lon1) * pi / 180"
  from assms(1) have "\<bar>num lat1 * pi / 180\<bar> \<le> pi / 2"
    by (intro degrees_quarter_turn) (simp_all add: in_range_def)
  moreover from assms(2) have "\<bar>num lat2 * pi / 180\<bar> \<le> pi / 2"
    by (intro degrees_quarter_turn) (simp_all add: in_range_def)
  ultimately have p: "\<bar>p1\<bar> \<le> pi / 2" "\<bar>p2\<bar> \<le> pi / 2"
    unfolding p1_def p2_def .
  have d: "(num lat2 - num lat1) * pi / 180 = p2 - p1"
    by (simp add: p1_def p2_def field_simps)
  have "num (spec_a exact lat1 lon1 lat2 lon2) =
      (sin ((p2 - p1) / 2))\<^sup>2 + cos p1 * cos p2 * (sin (l / 2))\<^sup>2"
    unfolding exact_a_value(2) [OF fin] d p1_def [symmetric] p2_def [symmetric] l_def [symmetric] ..
  with haversine_unit [OF p, of l] exact_a_value(1) [OF fin] show ?thesis
    by (simp add: in_range_def)
qed

lemma exact_atan2_quadrant:
  assumes y: "finite64 y" "0 \<le> num y" and s: "0 \<le> s"
  shows "in_range 0 (pi / 2) (x_atan2 y (Fin s))"
proof (cases "num y = 0")
  case True
  with y s show ?thesis
    by (simp add: x_atan2_def in_range_def)
next
  case False
  with y have pos: "0 < num y" by simp
  show ?thesis
  proof (cases "s = 0")
    case True
    with y pos show ?thesis
      by (simp add: x_atan2_def in_range_def)
  next
    case False
    with s pos have "0 < num y / s" by simp
    then have "0 < arctan (num y / s)"
      by (simp add: arctan_less_zero_iff [symmetric] not_less arctan_le_zero_iff)
    moreover have "arctan (num y / s) < pi / 2" by (rule arctan_ubound)
    ultimately show ?thesis
      using y pos s False by (simp add: x_atan2_def in_range_def Let_def)
  qed
qed

lemma exact_c_range:
  assumes "in_range 0 1 a"
  shows "in_range 0 pi (spec_c exact a)"
proof -
  from assms have a: "finite64 a" "0 \<le> num a" "num a \<le> 1"
    by (simp_all add: in_range_def)
  have b: "x_sqrt (x_sub (Fin 1) a) = Fin (sqrt (1 - num a))"
    using a by (simp add: x_sub_def x_sqrt_def signed_def)
  from x_sqrt_exact [OF a(1,2)] have y: "finite64 (x_sqrt a)" "0 \<le> num (x_sqrt a)"
    using a(2) by simp_all
  from a(3) have "0 \<le> sqrt (1 - num a)" by simp
  from exact_atan2_quadrant [OF y this]
  have q: "finite64 (x_atan2 (x_sqrt a) (Fin (sqrt (1 - num a))))"
    "0 \<le> num (x_atan2 (x_sqrt a) (Fin (sqrt (1 - num a))))"
    "num (x_atan2 (x_sqrt a) (Fin (sqrt (1 - num a)))) \<le> pi / 2"
    by (simp_all add: in_range_def)
  then show ?thesis
    by (simp add: spec_c_def exact_fields b x_mul_def in_range_def)
qed

lemma exact_distance_range:
  assumes "in_range (- 90) 90 lat1" and "in_range (- 90) 90 lat2"
    and "in_range (- 180) 180 lon1" and "in_range (- 180) 180 lon2"
  shows "in_range 0 (pi * 6371) (spec_distance exact lat1 lon1 lat2 lon2)"
proof -
  from exact_c_range [OF exact_a_unit [OF assms]]
  have c: "finite64 (spec_c exact (spec_a exact lat1 lon1 lat2 lon2))"
    "0 \<le> num (spec_c exact (spec_a exact lat1 lon1 lat2 lon2))"
    "num (spec_c exact (spec_a exact lat1 lon1 lat2 lon2)) \<le> pi"
    by (simp_all add: in_range_def)
  then show ?thesis
    by (simp add: spec_distance_def earthRadiusKm_def exact_fields x_mul_def in_range_def)
qed

lemma exact_Haversine_range:
  assumes "in_range (- 90) 90 lat1" and "in_range (- 90) 90 lat2"
    and "in_range (- 180) 180 lon1" and "in_range (- 180) 180 lon2"
  shows "\<exists>km. Haversine exact lat1 lon1 lat2 lon2 = (km, None) \<and> in_range 0 (pi * 6371) km"
proof -
  from assms have "\<not> out_of_range lat1 lon1 lat2 lon2"
    by (simp add: out_of_range_def)
  from valid_computes [OF this, of exact] exact_distance_range [OF assms] show ?thesis
    by simp
qed

text \<open>
  The bounds rest on the arithmetic being exact, not on its accuracy. On the accurate
  arithmetic \<open>skewed\<close> the points \<open>(0, 0)\<close> and \<open>(0, 180)\<close>, antipodes on the equator, give
  \<open>a = 1 + eps\<close>: then \<open>1 - a\<close> is negative, its square root is NaN and \<open>Haversine\<close> returns
  NaN with a nil error. The source does not bring \<open>a\<close> back into \<open>[0, 1]\<close>, so on float64
  the range of \<open>a\<close> is decided by how the last bits of the sines, cosines and the sum round.
\<close>

lemma skewed_accurate: "accurate skewed"
  using exact_accurate unfolding accurate_def skewed_def exact_def
  by (simp add: add_above_def near_def small_def in_range_def eps_def)

lemma skewed_antipodes:
  "accurate skewed \<and> \<not> out_of_range (Fin 0) (Fin 0) (Fin 0) (Fin 180) \<and>
   Haversine skewed (Fin 0) (Fin 0) (Fin 0) (Fin 180) = (NaN, None)"
proof -
  have valid: "\<not> out_of_range (Fin 0) (Fin 0) (Fin 0) (Fin 180)"
    by (simp add: out_of_range_def in_range_def)
  have zero: "degToRad skewed (Fin 0) = Fin 0"
    by (simp add: degToRad_def skewed_def exact_def x_mul_def x_div_def signed_def)
  have half: "fdiv skewed (degToRad skewed (Fin 180)) (Fin 2) = Fin (pi / 2)"
    by (simp add: degToRad_def skewed_def exact_def x_mul_def x_div_def signed_def)
  have a: "fadd skewed (math_Pow skewed (math_Sin skewed (fdiv skewed (degToRad skewed (Fin 0)) (Fin 2))) (Fin 2))
      (fmul skewed (fmul skewed (math_Cos skewed (degToRad skewed (Fin 0))) (math_Cos skewed (degToRad skewed (Fin 0))))
        (math_Pow skewed (math_Sin skewed (fdiv skewed (degToRad skewed (Fin 180)) (Fin 2))) (Fin 2))) = Fin (1 + eps)"
    unfolding zero half
    by (simp add: skewed_def exact_def x_mul_def x_div_def x_sin_def x_cos_def x_pow_def
        add_above_def signed_def)
  have b: "math_Sqrt skewed (fsub skewed (Fin 1) (Fin (1 + eps))) = NaN"
    by (simp add: skewed_def exact_def x_sub_def x_sqrt_def signed_def eps_def)
  have c: "fmul skewed (Fin earthRadius) (fmul skewed (Fin 2) (math_Atan2 skewed y NaN)) = NaN" for y
    by (simp add: skewed_def exact_def x_mul_def x_atan2_def)
  have d: "fsub skewed (Fin 0) (Fin 0) = Fin 0" "fsub skewed (Fin 180) (Fin 0) = Fin 180"
    by (simp_all add: skewed_def exact_def x_sub_def signed_def)
  have "Haversine skewed (Fin 0) (Fin 0) (Fin 0) (Fin 180) = (NaN, None)"
    unfolding Haversine_def guard_out_of_range if_not_P [OF valid] Let_def d a b c ..
  with valid skewed_accurate show ?thesis by simp
qed

subsection \<open>When \<open>a\<close> exceeds 1\<close>

text \<open>
  The source uses \<open>a\<close> as it was rounded. On Go's float64 arithmetic the sum can round to
  the float64 above 1: evaluating Go's \<open>math.Sin\<close>, \<open>math.Cos\<close> and \<open>math.Pow\<close> at
  \<open>Haversine(-84, -180, 84, 0)\<close>, outside this theory, gives \<open>sin\<^sup>2(dLat/2) =
  0x1.fa67e193d0041p-1\<close>, a product of the cosines of \<open>0x1.66079b0bff00bp-7\<close>,
  \<open>sin\<^sup>2(dLon/2) = 1\<close> and \<open>a = 1 + 2\<^sup>-\<^sup>5\<^sup>2\<close>. What the source returns from such an \<open>a\<close>
  is proved below, for every arithmetic with the NaN rules.
\<close>

lemma nan_rulesD:
  assumes "nan_rules M"
  shows "finite64 x \<Longrightarrow> 1 + 1 / 2 ^ 52 \<le> num x \<Longrightarrow> finite64 (fsub M (Fin 1) x)"
    and "finite64 x \<Longrightarrow> 1 + 1 / 2 ^ 52 \<le> num x \<Longrightarrow> num (fsub M (Fin 1) x) < 0"
    and "finite64 x \<Longrightarrow> num x < 0 \<Longrightarrow> math_Sqrt M x = NaN"
    and "math_Atan2 M y NaN = NaN"
    and "fmul M x NaN = NaN"
  using assms unfolding nan_rules_def by blast+

lemma above_one_not_a_number:
  assumes M: "nan_rules M" and a: "finite64 a" "1 + 1 / 2 ^ 52 \<le> num a"
  shows "math_Sqrt M (fsub M (Fin 1) a) = NaN"
    and "fmul M earthRadiusKm (spec_c M a) = NaN"
proof -
  show s: "math_Sqrt M (fsub M (Fin 1) a) = NaN"
    by (rule nan_rulesD(3) [OF M nan_rulesD(1) [OF M a] nan_rulesD(2) [OF M a]])
  show "fmul M earthRadiusKm (spec_c M a) = NaN"
    by (simp add: spec_c_def s nan_rulesD(4,5) [OF M])
qed

lemma above_one_result:
  assumes M: "nan_rules M"
    and valid: "in_range (- 90) 90 lat1" "in_range (- 90) 90 lat2"
      "in_range (- 180) 180 lon1" "in_range (- 180) 180 lon2"
    and a: "finite64 (spec_a M lat1 lon1 lat2 lon2)"
      "1 + 1 / 2 ^ 52 \<le> num (spec_a M lat1 lon1 lat2 lon2)"
  shows "Haversine M lat1 lon1 lat2 lon2 = (NaN, None)"
proof -
  from valid have "\<not> out_of_range lat1 lon1 lat2 lon2"
    by (simp add: out_of_range_def)
  from valid_computes [OF this, of M] above_one_not_a_number(2) [OF M a] show ?thesis
    by (simp add: spec_distance_def)
qed

lemma skewed_nan_rules: "nan_rules skewed"
  unfolding nan_rules_def skewed_def exact_def
  by (simp add: x_sub_def x_sqrt_def x_atan2_def x_mul_def signed_def)

lemma skewed_a: "spec_a skewed (Fin 0) (Fin 0) (Fin 0) (Fin 180) = Fin (1 + eps)"
  by (simp add: spec_a_def radians_def sin_squared_def skewed_def exact_def x_sub_def x_mul_def
      x_div_def x_sin_def x_cos_def x_pow_def add_above_def signed_def)

text \<open>
  C4. For every valid input the distance returned by \<open>Haversine\<close> is a non-negative real
  number at most \<open>\<pi> * 6371\<close>. The source departs from it: for a valid input whose rounded
  \<open>a\<close> is above 1, \<open>Haversine\<close> returns NaN with a nil error, and NaN is no number between
  0 and \<open>\<pi> * 6371\<close>. On the exact arithmetic the claim holds (\<open>exact_Haversine_range\<close>).
\<close>

theorem Haversine_distance_not_a_number:
  assumes "nan_rules M"
    and "in_range (- 90) 90 lat1" and "in_range (- 90) 90 lat2"
    and "in_range (- 180) 180 lon1" and "in_range (- 180) 180 lon2"
    and "finite64 (spec_a M lat1 lon1 lat2 lon2)"
    and "1 + 1 / 2 ^ 52 \<le> num (spec_a M lat1 lon1 lat2 lon2)"
  shows "Haversine M lat1 lon1 lat2 lon2 = (NaN, None) \<and>
    \<not> in_range 0 (pi * 6371) (fst (Haversine M lat1 lon1 lat2 lon2))"
  using above_one_result [OF assms] by (simp add: in_range_def)

theorem Haversine_distance_not_a_number_witness:
  "nan_rules skewed \<and> in_range (- 90) 90 (Fin 0) \<and> in_range (- 180) 180 (Fin 0) \<and>
   in_range (- 180) 180 (Fin 180) \<and>
   finite64 (spec_a skewed (Fin 0) (Fin 0) (Fin 0) (Fin 180)) \<and>
   1 + 1 / 2 ^ 52 \<le> num (spec_a skewed (Fin 0) (Fin 0) (Fin 0) (Fin 180)) \<and>
   Haversine skewed (Fin 0) (Fin 0) (Fin 0) (Fin 180) = (NaN, None)"
proof -
  have v: "in_range (- 90) 90 (Fin 0)" "in_range (- 180) 180 (Fin 0)"
    "in_range (- 180) 180 (Fin 180)"
    by (simp_all add: in_range_def)
  have a: "finite64 (spec_a skewed (Fin 0) (Fin 0) (Fin 0) (Fin 180))"
    "1 + 1 / 2 ^ 52 \<le> num (spec_a skewed (Fin 0) (Fin 0) (Fin 0) (Fin 180))"
    by (simp_all add: skewed_a eps_def)
  from skewed_nan_rules v a
    Haversine_distance_not_a_number [OF skewed_nan_rules v(1) v(1) v(2) v(3) a]
  show ?thesis by simp
qed

text \<open>
  C10. For every valid input the intermediate value \<open>a\<close> lies in \<open>[0, 1]\<close>, both square
  roots receive non-negative arguments and the distance is never NaN. The source departs
  from it: it does not bring \<open>a\<close> back into \<open>[0, 1]\<close>, and for a valid input whose rounded
  \<open>a\<close> is above 1 the argument \<open>1 - a\<close> of the second \<open>math.Sqrt\<close> is negative, that square
  root is NaN and so is the distance, with a nil error. On the exact arithmetic the claim
  holds (\<open>exact_a_unit\<close>).
\<close>

theorem Haversine_a_above_one:
  assumes "nan_rules M"
    and "in_range (- 90) 90 lat1" and "in_range (- 90) 90 lat2"
    and "in_range (- 180) 180 lon1" and "in_range (- 180) 180 lon2"
    and "finite64 (spec_a M lat1 lon1 lat2 lon2)"
    and "1 + 1 / 2 ^ 52 \<le> num (spec_a M lat1 lon1 lat2 lon2)"
  shows "\<not> in_range 0 1 (spec_a M lat1 lon1 lat2 lon2) \<and>
    num (fsub M (Fin 1) (spec_a M lat1 lon1 lat2 lon2)) < 0 \<and>
    math_Sqrt M (fsub M (Fin 1) (spec_a M lat1 lon1 lat2 lon2)) = NaN \<and>
    fst (Haversine M lat1 lon1 lat2 lon2) = NaN \<and>
    snd (Haversine M lat1 lon1 lat2 lon2) = None"
proof -
  from assms(7) have "\<not> in_range 0 1 (spec_a M lat1 lon1 lat2 lon2)"
    by (simp add: in_range_def)
  with above_one_result [OF assms] above_one_not_a_number(1) [OF assms(1,6,7)]
    nan_rulesD(2) [OF assms(1,6,7)]
  show ?thesis by simp
qed

theorem Haversine_a_above_one_witness:
  "nan_rules skewed \<and> in_range (- 90) 90 (Fin 0) \<and> in_range (- 180) 180 (Fin 0) \<and>
   in_range (- 180) 180 (Fin 180) \<and>
   spec_a skewed (Fin 0) (Fin 0) (Fin 0) (Fin 180) = Fin (1 + eps) \<and>
   \<not> in_range 0 1 (spec_a skewed (Fin 0) (Fin 0) (Fin 0) (Fin 180)) \<and>
   math_Sqrt skewed (fsub skewed (Fin 1) (spec_a skewed (Fin 0) (Fin 0) (Fin 0) (Fin 180))) = NaN \<and>
   fst (Haversine skewed (Fin 0) (Fin 0) (Fin 0) (Fin 180)) = NaN"
proof -
  have v: "in_range (- 90) 90 (Fin 0)" "in_range (- 180) 180 (Fin 0)"
    "in_range (- 180) 180 (Fin 180)"
    by (simp_all add: in_range_def)
  have a: "finite64 (spec_a skewed (Fin 0) (Fin 0) (Fin 0) (Fin 180))"
    "1 + 1 / 2 ^ 52 \<le> num (spec_a skewed (Fin 0) (Fin 0) (Fin 0) (Fin 180))"
    by (simp_all add: skewed_a eps_def)
  from skewed_nan_rules v skewed_a
    Haversine_a_above_one [OF skewed_nan_rules v(1) v(1) v(2) v(3) a]
  show ?thesis by simp
qed
end
